theory Spec2Isabelle
  imports Complex_Main
begin

section \<open>Values, exceptions and the lookup client\<close>

text \<open>
  The three scripts are \<^verbatim>\<open>scripts/imdb_rating_script.py\<close>,
  \<^verbatim>\<open>scripts/cleanup_script.py\<close> and \<^verbatim>\<open>scripts/merge_script.py\<close>. The first two
  define functions of the same names (\<^verbatim>\<open>get_imdb_rating\<close>, \<^verbatim>\<open>process_titles\<close>,
  \<^verbatim>\<open>add_imdb_ratings\<close>); the definitions below carry the suffix \<open>_imdb\<close> for the
  first script and \<open>_cleanup\<close> for the second.

  A \<open>cell\<close> is a Python value as it occurs in a table or as a rating: \<open>Absent\<close> stands
  for \<^verbatim>\<open>None\<close> (and for the empty field it becomes in a CSV file), \<open>Num\<close> for a
  number, \<open>Str\<close> for a string.
\<close>

datatype cell = Absent | Num rat | Str string

text \<open>
  Exceptions are values. \<open>Timeout\<close>, \<open>ConnectionError\<close> and \<open>HTTPError\<close> are the
  classes of \<^verbatim>\<open>requests.exceptions\<close> (all three derive from
  \<^verbatim>\<open>RequestException\<close>), \<open>IMDbDataAccessError\<close> is the error of the \<^verbatim>\<open>imdb\<close>
  package, \<open>KeyboardInterrupt\<close> derives from \<^verbatim>\<open>BaseException\<close> only; the others
  are subclasses of \<^verbatim>\<open>Exception\<close>, builtin but for \<open>ParserError\<close> and
  \<open>MergeError\<close>, which are errors of pandas.
\<close>

datatype exn =
    Timeout
  | ConnectionError
  | HTTPError
  | IMDbDataAccessError
  | NameError string
  | KeyError string
  | IndexError
  | ValueError
  | ParserError
  | OSError
  | TypeError
  | MergeError
  | KeyboardInterrupt

datatype exn_class =
    TimeoutC
  | RequestExceptionC
  | IMDbDataAccessErrorC
  | ExceptionC

fun isinstance :: "exn \<Rightarrow> exn_class \<Rightarrow> bool" where
  "isinstance Timeout c = (c = TimeoutC \<or> c = RequestExceptionC \<or> c = ExceptionC)"
| "isinstance ConnectionError c = (c = RequestExceptionC \<or> c = ExceptionC)"
| "isinstance HTTPError c = (c = RequestExceptionC \<or> c = ExceptionC)"
| "isinstance IMDbDataAccessError c = (c = IMDbDataAccessErrorC \<or> c = ExceptionC)"
| "isinstance KeyboardInterrupt c = False"
| "isinstance e c = (c = ExceptionC)"

text \<open>
  The names that denote exception classes at module level. Both scripts have the same
  imports: \<^verbatim>\<open>from requests.exceptions import Timeout, RequestException\<close> and
  \<^verbatim>\<open>import imdb\<close>; \<^verbatim>\<open>Exception\<close> is a builtin. No script imports or defines
  \<^verbatim>\<open>HTTPError\<close>.
\<close>

definition module_names :: "string \<Rightarrow> exn_class option" where
  "module_names n =
     (if n = ''Timeout'' then Some TimeoutC
      else if n = ''RequestException'' then Some RequestExceptionC
      else if n = ''imdb.IMDbDataAccessError'' then Some IMDbDataAccessErrorC
      else if n = ''Exception'' then Some ExceptionC
      else None)"

text \<open>
  The \<^verbatim>\<open>except\<close> clauses of a \<^verbatim>\<open>try\<close> statement are tried in order: the
  clause's expression is evaluated (an unbound name raises \<^verbatim>\<open>NameError\<close>, which
  leaves the statement), then the exception is matched against the class. The result is
  \<open>Inr n\<close> when the clause named \<open>n\<close> handles the exception and \<open>Inl e'\<close> when the
  exception \<open>e'\<close> leaves the statement.
\<close>

fun except_chain :: "string list \<Rightarrow> exn \<Rightarrow> exn + string" where
  "except_chain [] e = Inl e"
| "except_chain (n # ns) e =
     (case module_names n of
        None \<Rightarrow> Inl (NameError n)
      | Some c \<Rightarrow> if isinstance e c then Inr n else except_chain ns e)"

definition clauses_imdb :: "string list" where
  "clauses_imdb =
     [''Timeout'', ''RequestException'', ''HTTPError'', ''imdb.IMDbDataAccessError'',
      ''Exception'']"

definition clauses_cleanup :: "string list" where
  "clauses_cleanup = [''Timeout'', ''RequestException'', ''Exception'']"

text \<open>
  A movie object is a dictionary of fields; \<^verbatim>\<open>movie.get('rating')\<close> is the field or
  \<^verbatim>\<open>None\<close>. The client \<^verbatim>\<open>ia\<close> is opaque: its two methods take the client's
  state and return the new one together with a result or an exception.
  \<^verbatim>\<open>ia.update(movie)\<close> fills the movie object in place, which the model returns.
\<close>

type_synonym movie = "(string \<times> cell) list"

definition movie_get :: "movie \<Rightarrow> string \<Rightarrow> cell" where
  "movie_get m k = (case map_of m k of None \<Rightarrow> Absent | Some v \<Rightarrow> v)"

record 's client =
  search_movie :: "cell \<Rightarrow> 's \<Rightarrow> (exn + movie list) \<times> 's"
  update :: "movie \<Rightarrow> 's \<Rightarrow> (exn + movie) \<times> 's"

text \<open>What a call of the fetch operation does besides returning, in order.\<close>

datatype event =
    Search cell
  | Update movie
  | Print string
  | Sleep nat

section \<open>The fetch operation: \<^verbatim>\<open>get_imdb_rating\<close>\<close>

text \<open>
  One pass through the body of the \<^verbatim>\<open>try\<close>: \<open>Inl e\<close> when a client call raised
  \<open>e\<close>, \<open>Inr r\<close> when the body reached a \<^verbatim>\<open>return r\<close>.
\<close>

definition try_body :: "'s client \<Rightarrow> cell \<Rightarrow> 's \<Rightarrow> (exn + cell) \<times> 's \<times> event list" where
  "try_body ia title s =
     (case search_movie ia title s of
        (Inl e, s1) \<Rightarrow> (Inl e, s1, [Search title])
      | (Inr search_results, s1) \<Rightarrow>
          (case search_results of
             [] \<Rightarrow> (Inr Absent, s1, [Search title])
           | movie # _ \<Rightarrow>
               (case update ia movie s1 of
                  (Inl e, s2) \<Rightarrow> (Inl e, s2, [Search title, Update movie])
                | (Inr movie', s2) \<Rightarrow>
                    (Inr (movie_get movie' ''rating''), s2, [Search title, Update movie]))))"

text \<open>
  The loop \<^verbatim>\<open>for attempt in range(retries)\<close> with the attempts that are left as the
  recursion argument; every handler prints a message and sleeps \<open>delay\<close>, and after the
  last attempt the function returns \<^verbatim>\<open>None\<close>.
\<close>

fun attempts :: "string list \<Rightarrow> nat \<Rightarrow> 's client \<Rightarrow> cell \<Rightarrow> nat \<Rightarrow> 's \<Rightarrow>
    (exn + cell) \<times> 's \<times> event list" where
  "attempts clauses delay ia title 0 s = (Inr Absent, s, [])"
| "attempts clauses delay ia title (Suc n) s =
     (case try_body ia title s of
        (Inr r, s1, evs) \<Rightarrow> (Inr r, s1, evs)
      | (Inl e, s1, evs) \<Rightarrow>
          (case except_chain clauses e of
             Inl e' \<Rightarrow> (Inl e', s1, evs)
           | Inr handler \<Rightarrow>
               (case attempts clauses delay ia title n s1 of
                  (r, s2, evs') \<Rightarrow> (r, s2, evs @ [Print handler, Sleep delay] @ evs'))))"

definition get_imdb_rating_imdb :: "'s client \<Rightarrow> cell \<Rightarrow> 's \<Rightarrow> (exn + cell) \<times> 's \<times> event list" where
  "get_imdb_rating_imdb ia title s =
     (let retries = 3; delay = 5 in attempts clauses_imdb delay ia title retries s)"

definition get_imdb_rating_cleanup :: "'s client \<Rightarrow> cell \<Rightarrow> 's \<Rightarrow> (exn + cell) \<times> 's \<times> event list" where
  "get_imdb_rating_cleanup ia title s =
     (let retries = 3; delay = 5 in attempts clauses_cleanup delay ia title retries s)"

text \<open>The number of lookup invocations and of retry delays in a log.\<close>

fun is_Search :: "event \<Rightarrow> bool" where
  "is_Search (Search _) = True"
| "is_Search _ = False"

fun is_Sleep :: "event \<Rightarrow> bool" where
  "is_Sleep (Sleep _) = True"
| "is_Sleep _ = False"

definition lookups :: "event list \<Rightarrow> nat" where
  "lookups evs = length (filter is_Search evs)"

definition delays :: "event list \<Rightarrow> nat" where
  "delays evs = length (filter is_Sleep evs)"

section \<open>Strings and paths\<close>

text \<open>
  Python's \<^verbatim>\<open>s.replace(old, new)\<close>: every occurrence of \<open>old\<close>, found from left to
  right without overlap, becomes \<open>new\<close> (for an empty \<open>old\<close>, \<open>new\<close> is put before
  every character and at the end). \<open>contains s sub\<close> is \<^verbatim>\<open>sub in s\<close>.
\<close>

fun replace :: "string \<Rightarrow> string \<Rightarrow> string \<Rightarrow> string" where
  "replace [] old new = (if old = [] then new else [])"
| "replace (c # cs) old new =
     (if old = [] then new @ c # replace cs old new
      else if take (length old) (c # cs) = old
        then new @ replace (drop (length old - 1) cs) old new
      else c # replace cs old new)"


definition progress_path :: "string \<Rightarrow> string" where
  "progress_path input_file = replace input_file ''.csv'' ''_progress.csv''"

definition output_path_imdb :: "string \<Rightarrow> string" where
  "output_path_imdb input_file = replace input_file ''.csv'' ''_Modified.csv''"

definition output_path_cleanup :: "string \<Rightarrow> string" where
  "output_path_cleanup input_file = replace input_file ''.csv'' ''_modified.csv''"

section \<open>Tables and files\<close>

text \<open>
  A table (a pandas \<^verbatim>\<open>DataFrame\<close>) is the list of its columns, each a name with the
  cells of the column. The file system maps a path to a directory, to a CSV file with the
  table it holds, or to a file that does not parse as CSV. Writing a table and reading it
  back gives the same table: how pandas prints and parses cells is outside the model.
\<close>

type_synonym dataframe = "(string \<times> cell list) list"

datatype node = Dir | Csv dataframe | Garbage

type_synonym fs = "string \<Rightarrow> node option"

definition exists :: "fs \<Rightarrow> string \<Rightarrow> bool" where
  "exists files path = (files path \<noteq> None)"

definition isfile :: "fs \<Rightarrow> string \<Rightarrow> bool" where
  "isfile files path = (case files path of Some (Csv _) \<Rightarrow> True | Some Garbage \<Rightarrow> True | _ \<Rightarrow> False)"

definition read_csv :: "fs \<Rightarrow> string \<Rightarrow> exn + dataframe" where
  "read_csv files path =
     (case files path of
        None \<Rightarrow> Inl OSError
      | Some Dir \<Rightarrow> Inl OSError
      | Some Garbage \<Rightarrow> Inl ParserError
      | Some (Csv df) \<Rightarrow> if df = [] then Inl ParserError else Inr df)"

definition to_csv :: "dataframe \<Rightarrow> string \<Rightarrow> fs \<Rightarrow> exn + fs" where
  "to_csv df path files =
     (if files path = Some Dir then Inl OSError else Inr (files(path \<mapsto> Csv df)))"

definition columns :: "dataframe \<Rightarrow> string list" where
  "columns df = map fst df"

definition len :: "dataframe \<Rightarrow> nat" where
  "len df = (case df of [] \<Rightarrow> 0 | (_, xs) # _ \<Rightarrow> length xs)"

text \<open>\<^verbatim>\<open>df[name].tolist()\<close>, a \<^verbatim>\<open>KeyError\<close> when there is no such column.\<close>

definition column :: "dataframe \<Rightarrow> string \<Rightarrow> exn + cell list" where
  "column df name = (case map_of df name of None \<Rightarrow> Inl (KeyError name) | Some xs \<Rightarrow> Inr xs)"

text \<open>
  \<^verbatim>\<open>pd.DataFrame(progress)\<close> for the list of dictionaries
  \<^verbatim>\<open>{'Index': index, 'Title': title, 'Rating': rating}\<close>; an empty list gives a
  table without columns.
\<close>

type_synonym progress = "(nat \<times> cell \<times> cell) list"

definition DataFrame :: "progress \<Rightarrow> dataframe" where
  "DataFrame progress =
     (if progress = [] then []
      else [(''Index'', map (\<lambda>(index, title, rating). Num (of_nat index)) progress),
            (''Title'', map (\<lambda>(index, title, rating). title) progress),
            (''Rating'', map (\<lambda>(index, title, rating). rating) progress)])"

text \<open>
  \<^verbatim>\<open>pd.concat([a, b])\<close>: the rows of \<open>a\<close>, then the rows of \<open>b\<close>, over the columns
  of \<open>a\<close> followed by those only \<open>b\<close> has; a cell of a column that a table lacks is
  absent.
\<close>

definition cells_of :: "dataframe \<Rightarrow> string \<Rightarrow> cell list" where
  "cells_of df name =
     (case map_of df name of None \<Rightarrow> replicate (len df) Absent | Some xs \<Rightarrow> xs)"

definition concat_df :: "dataframe \<Rightarrow> dataframe \<Rightarrow> dataframe" where
  "concat_df a b =
     map (\<lambda>name. (name, cells_of a name @ cells_of b name))
       (columns a @ filter (\<lambda>name. name \<notin> set (columns a)) (columns b))"

text \<open>
  \<^verbatim>\<open>df[name] = values\<close>: replaces the column or adds it as the last one; pandas
  raises \<^verbatim>\<open>ValueError\<close> when the number of values is not the number of rows.
\<close>

definition set_column :: "dataframe \<Rightarrow> string \<Rightarrow> cell list \<Rightarrow> exn + dataframe" where
  "set_column df name values =
     (if length values \<noteq> len df then Inl ValueError
      else if name \<in> set (columns df)
        then Inr (map (\<lambda>(n, xs). if n = name then (n, values) else (n, xs)) df)
      else Inr (df @ [(name, values)]))"

text \<open>
  \<^verbatim>\<open>int(x)\<close> on a cell: a number is truncated towards zero, a missing value (NaN)
  raises \<^verbatim>\<open>ValueError\<close>. A text cell is taken to raise \<^verbatim>\<open>ValueError\<close> too: a
  column read from CSV holds text only where some field of it is not a number.
\<close>

definition py_int :: "cell \<Rightarrow> exn + int" where
  "py_int c =
     (case c of
        Num q \<Rightarrow> Inr (if 0 \<le> q then \<lfloor>q\<rfloor> else \<lceil>q\<rceil>)
      | Absent \<Rightarrow> Inl ValueError
      | Str _ \<Rightarrow> Inl ValueError)"

text \<open>
  \<^verbatim>\<open>xs[i] = v\<close> for a Python list: a negative index counts from the end, an index
  out of range raises \<^verbatim>\<open>IndexError\<close>.
\<close>

definition setitem :: "'a list \<Rightarrow> int \<Rightarrow> 'a \<Rightarrow> exn + 'a list" where
  "setitem xs i v =
     (if 0 \<le> i \<and> i < int (length xs) then Inr (xs[nat i := v])
      else if i < 0 \<and> - int (length xs) \<le> i then Inr (xs[nat (int (length xs) + i) := v])
      else Inl IndexError)"

text \<open>\<^verbatim>\<open>xs[k:]\<close>, where a negative \<open>k\<close> counts from the end.\<close>

definition slice_from :: "int \<Rightarrow> 'a list \<Rightarrow> 'a list" where
  "slice_from k xs =
     (if 0 \<le> k then drop (nat k) xs else drop (nat (int (length xs) + k)) xs)"

text \<open>
  \<^verbatim>\<open>progress_df['Index'].max()\<close> as it is used for \<^verbatim>\<open>iloc[last_index + 1:]\<close>: the
  largest cell of a column of whole numbers; on an empty column, or one with a missing,
  fractional or text cell, the maximum is no integer and the slice raises
  \<^verbatim>\<open>TypeError\<close>.
\<close>

definition whole :: "cell \<Rightarrow> bool" where
  "whole c = (case c of Num q \<Rightarrow> q = of_int \<lfloor>q\<rfloor> | _ \<Rightarrow> False)"

definition whole_value :: "cell \<Rightarrow> int" where
  "whole_value c = (case c of Num q \<Rightarrow> \<lfloor>q\<rfloor> | _ \<Rightarrow> 0)"

definition index_max :: "cell list \<Rightarrow> exn + int" where
  "index_max cells =
     (if cells = [] \<or> \<not> list_all whole cells then Inl TypeError
      else Inr (Max (set (map whole_value cells))))"

section \<open>The worker: \<^verbatim>\<open>process_titles\<close>\<close>

text \<open>
  What a run does besides computing the ratings, in order: a call of
  \<^verbatim>\<open>get_imdb_rating\<close> for a row index, one rewrite of the progress file by a
  worker, a message to the operator, the writing of the output file. The progress lines
  of the workers, which print elapsed clock time, are not modelled.
\<close>

datatype run_event =
    Fetch nat
  | Append string
  | Message string
  | Output string

text \<open>
  The loop over the rows of a batch. \<open>get_imdb_rating\<close> is the fetch operation as a
  function of the title alone: the lookup service is taken to answer a title the same way
  whenever and by whichever worker it is asked. An exception of the fetch operation
  leaves the loop, and the worker.
\<close>

fun fetch_rows :: "(cell \<Rightarrow> exn + cell) \<Rightarrow> cell list \<Rightarrow> nat list \<Rightarrow>
    (exn + cell list \<times> progress) \<times> run_event list" where
  "fetch_rows get_imdb_rating titles [] = (Inr ([], []), [])"
| "fetch_rows get_imdb_rating titles (index # rest) =
     (if length titles \<le> index then (Inl IndexError, [])
      else let title = titles ! index in
        (case get_imdb_rating title of
           Inl e \<Rightarrow> (Inl e, [Fetch index])
         | Inr rating \<Rightarrow>
             (case fetch_rows get_imdb_rating titles rest of
                (Inl e, evs) \<Rightarrow> (Inl e, Fetch index # evs)
              | (Inr (ratings, progress), evs) \<Rightarrow>
                  (Inr (rating # ratings, (index, title, rating) # progress),
                   Fetch index # evs))))"

text \<open>The section under \<^verbatim>\<open>with progress_lock\<close>: read the store, add, rewrite.\<close>

definition save_progress :: "progress \<Rightarrow> string \<Rightarrow> fs \<Rightarrow> exn + fs" where
  "save_progress progress progress_file files =
     (let progress_df = DataFrame progress in
      if exists files progress_file then
        (case read_csv files progress_file of
           Inl e \<Rightarrow> Inl e
         | Inr existing_df \<Rightarrow>
             to_csv (concat_df existing_df progress_df) progress_file files)
      else to_csv progress_df progress_file files)"

definition process_titles_cleanup :: "(cell \<Rightarrow> exn + cell) \<Rightarrow> cell list \<Rightarrow> nat list \<Rightarrow>
    string \<Rightarrow> fs \<Rightarrow> (exn + cell list) \<times> fs \<times> run_event list" where
  "process_titles_cleanup get_imdb_rating titles indices progress_file files =
     (case fetch_rows get_imdb_rating titles indices of
        (Inl e, evs) \<Rightarrow> (Inl e, files, evs)
      | (Inr (ratings, progress), evs) \<Rightarrow>
          (case save_progress progress progress_file files of
             Inl e \<Rightarrow> (Inl e, files, evs)
           | Inr files' \<Rightarrow> (Inr ratings, files', evs @ [Append progress_file])))"

definition process_titles_imdb :: "(cell \<Rightarrow> exn + cell) \<Rightarrow> cell list \<Rightarrow> nat \<Rightarrow> nat \<Rightarrow>
    string \<Rightarrow> fs \<Rightarrow> (exn + cell list) \<times> fs \<times> run_event list" where
  "process_titles_imdb get_imdb_rating titles start_index end_index progress_file files =
     (case fetch_rows get_imdb_rating titles [start_index..<end_index] of
        (Inl e, evs) \<Rightarrow> (Inl e, files, evs)
      | (Inr (ratings, progress), evs) \<Rightarrow>
          (case save_progress progress progress_file files of
             Inl e \<Rightarrow> (Inl e, files, evs)
           | Inr files' \<Rightarrow> (Inr ratings, files', evs @ [Append progress_file])))"

section \<open>The pool of workers and the collection of their results\<close>

text \<open>
  The executor runs every submitted batch. The fetches of a worker touch nothing shared
  and its rewrite of the progress file is under the lock, so a run of the pool is the
  workers one after the other in the order in which they take the lock: \<open>order\<close> is
  that order, a list of batch numbers. The result is the outcome of each batch (what its
  future holds), the files and the events.
\<close>

fun run_workers :: "(nat \<Rightarrow> fs \<Rightarrow> (exn + cell list) \<times> fs \<times> run_event list) \<Rightarrow> nat list \<Rightarrow> fs \<Rightarrow>
    (nat \<times> (exn + cell list)) list \<times> fs \<times> run_event list" where
  "run_workers worker [] files = ([], files, [])"
| "run_workers worker (b # bs) files =
     (case worker b files of
        (r, files1, evs) \<Rightarrow>
          (case run_workers worker bs files1 of
             (rs, files2, evs') \<Rightarrow> ((b, r) # rs, files2, evs @ evs')))"

text \<open>
  \<^verbatim>\<open>for index, rating in pairs: if index < len(ratings): ratings[index] = rating\<close>
\<close>

fun store_pairs :: "(nat \<times> cell) list \<Rightarrow> cell list \<Rightarrow> cell list" where
  "store_pairs [] ratings = ratings"
| "store_pairs ((index, rating) # pairs) ratings =
     store_pairs pairs (if index < length ratings then ratings[index := rating] else ratings)"

text \<open>
  The loop \<^verbatim>\<open>for future in as_completed(futures)\<close>: the futures arrive in the order
  \<open>completed\<close>; \<^verbatim>\<open>future.result()\<close> raises the exception of a worker that raised;
  \<open>store\<close> is the body that puts the ratings of one batch into the vector.
\<close>

fun collect :: "(cell list \<Rightarrow> cell list \<Rightarrow> cell list) \<Rightarrow> (nat \<times> (exn + cell list)) list \<Rightarrow>
    nat list \<Rightarrow> cell list \<Rightarrow> exn + cell list" where
  "collect store results [] ratings = Inr ratings"
| "collect store results (b # completed) ratings =
     (case map_of results b of
        None \<Rightarrow> collect store results completed ratings
      | Some (Inl e) \<Rightarrow> Inl e
      | Some (Inr batch_ratings) \<Rightarrow>
          collect store results completed (store batch_ratings ratings))"

text \<open>
  The body of the collection loop. In both scripts it reads a variable that the
  submission loop assigned: \<^verbatim>\<open>batch_indices\<close> in \<^verbatim>\<open>cleanup_script.py\<close>,
  \<^verbatim>\<open>start_index\<close> in \<^verbatim>\<open>imdb_rating_script.py\<close>. When the collection loop runs,
  the variable holds the value of the last submitted batch.
\<close>

definition store_cleanup :: "nat list \<Rightarrow> cell list \<Rightarrow> cell list \<Rightarrow> cell list" where
  "store_cleanup batch_indices batch_ratings ratings =
     store_pairs (zip batch_indices batch_ratings) ratings"

definition store_imdb :: "nat \<Rightarrow> cell list \<Rightarrow> cell list \<Rightarrow> cell list" where
  "store_imdb start_index batch_ratings ratings =
     store_pairs (zip (map (\<lambda>i. start_index + i) [0..<length batch_ratings]) batch_ratings)
       ratings"

section \<open>The pipeline: \<^verbatim>\<open>add_imdb_ratings\<close>\<close>

definition title_missing :: string where
  "title_missing = ''Error: 'title' column is missing from the input file.''"

definition saved :: "string \<Rightarrow> string" where
  "saved output_file = ''Updated data saved to: '' @ output_file"

text \<open>
  \<^verbatim>\<open>ratings[int(row['Index'])] = row['Rating']\<close> for every row of the progress
  table. Python evaluates the right-hand side first, so a missing \<open>Rating\<close> column is
  reported before a missing \<open>Index\<close> column; a table without rows raises nothing.
\<close>

fun fill :: "(cell \<times> cell) list \<Rightarrow> cell list \<Rightarrow> exn + cell list" where
  "fill [] ratings = Inr ratings"
| "fill ((index, rating) # rows) ratings =
     (case py_int index of
        Inl e \<Rightarrow> Inl e
      | Inr i \<Rightarrow>
          (case setitem ratings i rating of
             Inl e \<Rightarrow> Inl e
           | Inr ratings' \<Rightarrow> fill rows ratings'))"

definition fill_from_progress :: "dataframe \<Rightarrow> cell list \<Rightarrow> exn + cell list" where
  "fill_from_progress progress_df ratings =
     (if len progress_df = 0 then Inr ratings
      else
        (case column progress_df ''Rating'' of
           Inl e \<Rightarrow> Inl e
         | Inr rating_cells \<Rightarrow>
             (case column progress_df ''Index'' of
                Inl e \<Rightarrow> Inl e
              | Inr index_cells \<Rightarrow> fill (zip index_cells rating_cells) ratings)))"

text \<open>The last statements: add the column, write the output file, report.\<close>

definition write_output :: "dataframe \<Rightarrow> cell list \<Rightarrow> string \<Rightarrow> fs \<Rightarrow> run_event list \<Rightarrow>
    (exn + unit) \<times> fs \<times> run_event list" where
  "write_output df ratings output_file files evs =
     (case set_column df ''IMDB_Rating'' ratings of
        Inl e \<Rightarrow> (Inl e, files, evs)
      | Inr df' \<Rightarrow>
          (case to_csv df' output_file files of
             Inl e \<Rightarrow> (Inl e, files, evs)
           | Inr files' \<Rightarrow>
               (Inr (), files', evs @ [Output output_file, Message (saved output_file)])))"

text \<open>
  \<^verbatim>\<open>cleanup_script.py\<close>, from the loading of the progress file to the filling of
  the vector from it: the result is the vector \<^verbatim>\<open>ratings\<close> that becomes the new
  column. \<open>set_order\<close> is the order in which Python lists the elements of the set
  \<^verbatim>\<open>all_indices - set(processed_indices)\<close>, given in ascending order;
  \<open>write_order\<close> is the order in which the workers take the lock and \<open>completed\<close>
  the order in which the futures arrive. An index of the progress file removes a row
  index when the two are equal as Python numbers.
\<close>

definition load_processed :: "fs \<Rightarrow> string \<Rightarrow> exn + cell list" where
  "load_processed files progress_file =
     (if exists files progress_file then
        (case read_csv files progress_file of
           Inl e \<Rightarrow> Inl e
         | Inr progress_df \<Rightarrow> column progress_df ''Index'')
      else Inr [])"

definition final_fill :: "fs \<Rightarrow> string \<Rightarrow> cell list \<Rightarrow> exn + cell list" where
  "final_fill files progress_file ratings =
     (if exists files progress_file then
        (case read_csv files progress_file of
           Inl e \<Rightarrow> Inl e
         | Inr progress_df \<Rightarrow> fill_from_progress progress_df ratings)
      else Inr ratings)"

definition unprocessed :: "(nat list \<Rightarrow> nat list) \<Rightarrow> cell list \<Rightarrow> nat \<Rightarrow> nat list" where
  "unprocessed set_order processed_indices n =
     set_order (filter (\<lambda>i. Num (of_nat i) \<notin> set processed_indices) [0..<n])"

definition ratings_cleanup :: "(nat list \<Rightarrow> nat list) \<Rightarrow> nat list \<Rightarrow> nat list \<Rightarrow>
    (cell \<Rightarrow> exn + cell) \<Rightarrow> dataframe \<Rightarrow> string \<Rightarrow> fs \<Rightarrow>
    (exn + cell list) \<times> fs \<times> run_event list" where
  "ratings_cleanup set_order write_order completed get_imdb_rating df progress_file files =
     (case load_processed files progress_file of
        Inl e \<Rightarrow> (Inl e, files, [])
      | Inr processed_indices \<Rightarrow>
          let titles = cells_of df ''title'';
              unprocessed_indices = unprocessed set_order processed_indices (len df);
              ratings = replicate (len df) Absent;
              batch_size = 5;
              num_batches = (length unprocessed_indices + batch_size - 1) div batch_size;
              batches = map (\<lambda>batch. take batch_size (drop (batch * batch_size) unprocessed_indices))
                          [0..<num_batches];
              worker = (\<lambda>batch. process_titles_cleanup get_imdb_rating titles (batches ! batch)
                          progress_file);
              batch_indices = (if batches = [] then [] else last batches)
          in
          (case run_workers worker (filter (\<lambda>b. b < num_batches) write_order) files of
             (results, files1, evs) \<Rightarrow>
               (case collect (store_cleanup batch_indices) results completed ratings of
                  Inl e \<Rightarrow> (Inl e, files1, evs)
                | Inr ratings1 \<Rightarrow>
                    (case final_fill files1 progress_file ratings1 of
                       Inl e \<Rightarrow> (Inl e, files1, evs)
                     | Inr ratings2 \<Rightarrow> (Inr ratings2, files1, evs)))))"

definition add_imdb_ratings_cleanup :: "(nat list \<Rightarrow> nat list) \<Rightarrow> nat list \<Rightarrow> nat list \<Rightarrow>
    (cell \<Rightarrow> exn + cell) \<Rightarrow> string \<Rightarrow> fs \<Rightarrow> (exn + unit) \<times> fs \<times> run_event list" where
  "add_imdb_ratings_cleanup set_order write_order completed get_imdb_rating input_file files =
     (case read_csv files input_file of
        Inl e \<Rightarrow> (Inl e, files, [])
      | Inr df \<Rightarrow>
          if ''title'' \<notin> set (columns df) then (Inr (), files, [Message title_missing])
          else
            (case ratings_cleanup set_order write_order completed get_imdb_rating df
                    (progress_path input_file) files of
               (Inl e, files1, evs) \<Rightarrow> (Inl e, files1, evs)
             | (Inr ratings, files1, evs) \<Rightarrow>
                 write_output df ratings (output_path_cleanup input_file) files1 evs))"

text \<open>
  \<^verbatim>\<open>imdb_rating_script.py\<close>. The titles still to process are those after the largest
  recorded index; the batches are then counted from 0 over the number of those titles,
  and every worker gets the whole list of titles.
\<close>

definition load_titles_to_process :: "fs \<Rightarrow> string \<Rightarrow> cell list \<Rightarrow> exn + cell list" where
  "load_titles_to_process files progress_file titles =
     (if exists files progress_file then
        (case read_csv files progress_file of
           Inl e \<Rightarrow> Inl e
         | Inr progress_df \<Rightarrow>
             (case column progress_df ''Index'' of
                Inl e \<Rightarrow> Inl e
              | Inr index_cells \<Rightarrow>
                  (case index_max index_cells of
                     Inl e \<Rightarrow> Inl e
                   | Inr last_index \<Rightarrow> Inr (slice_from (last_index + 1) titles))))
      else Inr titles)"

definition ratings_imdb :: "nat list \<Rightarrow> nat list \<Rightarrow> (cell \<Rightarrow> exn + cell) \<Rightarrow> dataframe \<Rightarrow>
    string \<Rightarrow> fs \<Rightarrow> (exn + cell list) \<times> fs \<times> run_event list" where
  "ratings_imdb write_order completed get_imdb_rating df progress_file files =
     (let titles = cells_of df ''title'' in
      case load_titles_to_process files progress_file titles of
        Inl e \<Rightarrow> (Inl e, files, [])
      | Inr titles_to_process \<Rightarrow>
          let ratings = replicate (len df) Absent;
              batch_size = 5;
              num_batches = (length titles_to_process + batch_size - 1) div batch_size;
              worker = (\<lambda>batch. process_titles_imdb get_imdb_rating titles
                          (batch * batch_size)
                          (min (batch * batch_size + batch_size) (length titles_to_process))
                          progress_file);
              start_index = (num_batches - 1) * batch_size
          in
          (case run_workers worker (filter (\<lambda>b. b < num_batches) write_order) files of
             (results, files1, evs) \<Rightarrow>
               (case collect (store_imdb start_index) results completed ratings of
                  Inl e \<Rightarrow> (Inl e, files1, evs)
                | Inr ratings1 \<Rightarrow> (Inr ratings1, files1, evs))))"

definition add_imdb_ratings_imdb :: "nat list \<Rightarrow> nat list \<Rightarrow>
    (cell \<Rightarrow> exn + cell) \<Rightarrow> string \<Rightarrow> fs \<Rightarrow> (exn + unit) \<times> fs \<times> run_event list" where
  "add_imdb_ratings_imdb write_order completed get_imdb_rating input_file files =
     (case read_csv files input_file of
        Inl e \<Rightarrow> (Inl e, files, [])
      | Inr df \<Rightarrow>
          if ''title'' \<notin> set (columns df) then (Inr (), files, [Message title_missing])
          else
            (case ratings_imdb write_order completed get_imdb_rating df
                    (progress_path input_file) files of
               (Inl e, files1, evs) \<Rightarrow> (Inl e, files1, evs)
             | (Inr ratings, files1, evs) \<Rightarrow>
                 write_output df ratings (output_path_imdb input_file) files1 evs))"

section \<open>The command line\<close>

definition usage :: string where
  "usage = ''Usage: python script_name.py <input_file>''"

definition not_a_file :: "string \<Rightarrow> string" where
  "not_a_file input_file = ''Error: The file '' @ input_file @ '' does not exist.''"

definition starting :: string where
  "starting = ''Starting creating new file''"

text \<open>
  The block under \<^verbatim>\<open>if __name__ == "__main__"\<close>, the same in both scripts:
  \<open>argv\<close> is \<^verbatim>\<open>sys.argv\<close> (the script's name first), the result is the exit status
  with the files and the events. An exception that nothing catches ends the process
  with status 1.
\<close>

definition main :: "(string \<Rightarrow> fs \<Rightarrow> (exn + unit) \<times> fs \<times> run_event list) \<Rightarrow> string list \<Rightarrow> fs \<Rightarrow>
    nat \<times> fs \<times> run_event list" where
  "main add_imdb_ratings argv files =
     (if length argv \<noteq> 2 then (1, files, [Message usage])
      else
        let input_file = argv ! 1 in
        if \<not> isfile files input_file then (1, files, [Message (not_a_file input_file)])
        else
          (case add_imdb_ratings input_file files of
             (Inl e, files', evs) \<Rightarrow> (1, files', Message starting # evs)
           | (Inr u, files', evs) \<Rightarrow> (0, files', Message starting # evs)))"

text \<open>
  The fetch operation of each script as the pipeline calls it, over a client without
  state of its own, and the two programs.
\<close>

definition fetch_imdb :: "unit client \<Rightarrow> cell \<Rightarrow> exn + cell" where
  "fetch_imdb ia title = fst (get_imdb_rating_imdb ia title ())"

definition fetch_cleanup :: "unit client \<Rightarrow> cell \<Rightarrow> exn + cell" where
  "fetch_cleanup ia title = fst (get_imdb_rating_cleanup ia title ())"

definition main_imdb :: "nat list \<Rightarrow> nat list \<Rightarrow> unit client \<Rightarrow> string list \<Rightarrow> fs \<Rightarrow>
    nat \<times> fs \<times> run_event list" where
  "main_imdb write_order completed ia argv files =
     main (add_imdb_ratings_imdb write_order completed (fetch_imdb ia)) argv files"

definition main_cleanup :: "(nat list \<Rightarrow> nat list) \<Rightarrow> nat list \<Rightarrow> nat list \<Rightarrow> unit client \<Rightarrow>
    string list \<Rightarrow> fs \<Rightarrow> nat \<times> fs \<times> run_event list" where
  "main_cleanup set_order write_order completed ia argv files =
     main (add_imdb_ratings_cleanup set_order write_order completed (fetch_cleanup ia)) argv files"

section \<open>What a progress file holds\<close>

text \<open>
  \<open>store_holds files progress_file ks rc\<close>: the progress file records the row indices
  \<open>ks\<close> with the ratings \<open>rc\<close>, in this order (no file records nothing). This is
  the shape of every progress file that the workers have written.
\<close>

definition store_holds :: "fs \<Rightarrow> string \<Rightarrow> nat list \<Rightarrow> cell list \<Rightarrow> bool" where
  "store_holds files progress_file ks rc =
     (case files progress_file of
        None \<Rightarrow> ks = [] \<and> rc = []
      | Some (Csv t) \<Rightarrow>
          t \<noteq> [] \<and> column t ''Index'' = Inr (map (\<lambda>k. Num (of_nat k)) ks)
          \<and> column t ''Rating'' = Inr rc \<and> len t = length ks
      | Some _ \<Rightarrow> False)"

text \<open>The rating that the records \<open>ks\<close>, \<open>rc\<close> hold for a row: that of its last record.\<close>

definition recorded_rating :: "nat list \<Rightarrow> cell list \<Rightarrow> nat \<Rightarrow> cell option" where
  "recorded_rating ks rc i = map_of (rev (zip ks rc)) i"

section \<open>Clients and inputs for the examples\<close>

text \<open>
  A client whose search raises \<open>e\<close> on every call; a client that finds nothing; a
  client that finds one movie whose rating is the length of the title (no rating for a
  title that is not text).
\<close>

definition raising :: "exn \<Rightarrow> 's client" where
  "raising e = \<lparr>search_movie = (\<lambda>title s. (Inl e, s)), update = (\<lambda>movie s. (Inr movie, s))\<rparr>"

definition finds_nothing :: "'s client" where
  "finds_nothing = \<lparr>search_movie = (\<lambda>title s. (Inr [], s)), update = (\<lambda>movie s. (Inr movie, s))\<rparr>"

definition rated :: "cell \<Rightarrow> movie" where
  "rated title = (case title of Str t \<Rightarrow> [(''rating'', Num (of_nat (length t)))] | _ \<Rightarrow> [])"

definition finds_one :: "'s client" where
  "finds_one = \<lparr>search_movie = (\<lambda>title s. (Inr [rated title], s)),
                 update = (\<lambda>movie s. (Inr movie, s))\<rparr>"

text \<open>A client that finds two movies, of which only the second has a rating.\<close>

definition finds_two :: "'s client" where
  "finds_two = \<lparr>search_movie = (\<lambda>title s. (Inr [[(''title'', title)], [(''rating'', Num 9)]], s)),
                 update = (\<lambda>movie s. (Inr movie, s))\<rparr>"

text \<open>A table of ten titles; \<open>finds_one\<close> rates the title of row \<open>i\<close> with \<open>i + 1\<close>.\<close>

definition ten_titles :: "cell list" where
  "ten_titles =
     [Str ''a'', Str ''bb'', Str ''ccc'', Str ''dddd'', Str ''eeeee'', Str ''ffffff'',
      Str ''ggggggg'', Str ''hhhhhhhh'', Str ''iiiiiiiii'', Str ''jjjjjjjjjj'']"

definition ten_rows :: dataframe where
  "ten_rows = [(''title'', ten_titles)]"

text \<open>The progress file after the first batch of five rows.\<close>

definition five_done :: dataframe where
  "five_done =
     DataFrame [(0, Str ''a'', Num 1), (1, Str ''bb'', Num 2), (2, Str ''ccc'', Num 3),
                (3, Str ''dddd'', Num 4), (4, Str ''eeeee'', Num 5)]"


section \<open>The merge utility: \<^verbatim>\<open>merge_script.py\<close>\<close>

text \<open>
  The three pandas operations of \<^verbatim>\<open>merge_datasets\<close>, as pandas documents them.

  \<^verbatim>\<open>df.rename(columns={old: new})\<close> renames the columns called \<open>old\<close>.
  \<^verbatim>\<open>df.drop(columns=names)\<close> removes the columns of these names and raises
  \<^verbatim>\<open>KeyError\<close> when one of them is no column.
\<close>

definition rename_column :: "string \<Rightarrow> string \<Rightarrow> dataframe \<Rightarrow> dataframe" where
  "rename_column old new df = map (\<lambda>(n, xs). (if n = old then new else n, xs)) df"

definition drop_columns :: "dataframe \<Rightarrow> string list \<Rightarrow> exn + dataframe" where
  "drop_columns df names =
     (case filter (\<lambda>n. n \<notin> set (columns df)) names of
        [] \<Rightarrow> Inr (filter (\<lambda>(n, xs). n \<notin> set names) df)
      | n # _ \<Rightarrow> Inl (KeyError n))"

text \<open>
  \<^verbatim>\<open>pd.merge(left, right, left_on=l, right_on=r, how='left')\<close>. The rows of the
  result are, for every row of \<open>left\<close> in order, the pairings of it with the rows of
  \<open>right\<close> that have the same key, in the order of \<open>right\<close>, or the row alone
  when no row of \<open>right\<close> has its key (the cells of \<open>right\<close> are then missing).
\<close>

definition matches :: "cell list \<Rightarrow> cell \<Rightarrow> nat list" where
  "matches right_keys k = filter (\<lambda>j. right_keys ! j = k) [0..<length right_keys]"

definition pair_row :: "cell list \<Rightarrow> cell \<Rightarrow> nat \<Rightarrow> (nat \<times> nat option) list" where
  "pair_row right_keys k i =
     (case matches right_keys k of
        [] \<Rightarrow> [(i, None)]
      | js \<Rightarrow> map (\<lambda>j. (i, Some j)) js)"

definition left_join_rows :: "cell list \<Rightarrow> cell list \<Rightarrow> (nat \<times> nat option) list" where
  "left_join_rows left_keys right_keys =
     concat (map (\<lambda>i. pair_row right_keys (left_keys ! i) i) [0..<length left_keys])"

definition take_rows :: "cell list \<Rightarrow> nat option list \<Rightarrow> cell list" where
  "take_rows xs js = map (\<lambda>j. case j of None \<Rightarrow> Absent | Some j \<Rightarrow> xs ! j) js"

text \<open>
  pandas refuses to merge a key column of numbers with a key column of text
  (\<^verbatim>\<open>ValueError: You are trying to merge on object and int64 columns\<close>). A column
  read from a CSV file is a column of numbers when it has a row and every field of it is
  a number or missing, and a column of text when some field of it is text; an empty
  column is neither.
\<close>

definition is_text :: "cell \<Rightarrow> bool" where
  "is_text c = (case c of Str _ \<Rightarrow> True | _ \<Rightarrow> False)"

definition numeric_column :: "cell list \<Rightarrow> bool" where
  "numeric_column xs = (xs \<noteq> [] \<and> list_all (\<lambda>c. \<not> is_text c) xs)"

definition text_column :: "cell list \<Rightarrow> bool" where
  "text_column xs = list_ex is_text xs"

definition incompatible_keys :: "cell list \<Rightarrow> cell list \<Rightarrow> bool" where
  "incompatible_keys left_keys right_keys =
     (numeric_column left_keys \<and> text_column right_keys
      \<or> text_column left_keys \<and> numeric_column right_keys)"

text \<open>
  The columns of the result are those of \<open>left\<close>, then those of \<open>right\<close>; a name
  that both tables have gets the suffix \<^verbatim>\<open>_x\<close> on the left and \<^verbatim>\<open>_y\<close> on the
  right. Both key columns stay, since their names differ. pandas 2 raises
  \<^verbatim>\<open>MergeError\<close> when the suffixes bring about two columns of one name:
  \<open>suffix_duplicates new old\<close> lists the names of \<open>new\<close> that repeat an earlier one
  where the name of \<open>old\<close> at the same place does not, and \<open>suffix_clashes\<close> adds to
  these, for both tables, the suffixed names of one table that are names of the other
  table only.
\<close>

definition shared_names :: "string list \<Rightarrow> string list \<Rightarrow> string list" where
  "shared_names left_names right_names = filter (\<lambda>n. n \<in> set right_names) left_names"

definition suffixed :: "string list \<Rightarrow> string \<Rightarrow> string \<Rightarrow> string" where
  "suffixed overlap suffix n = (if n \<in> set overlap then n @ suffix else n)"

definition duplicated :: "string list \<Rightarrow> nat \<Rightarrow> bool" where
  "duplicated names i = (names ! i \<in> set (take i names))"

definition suffix_duplicates :: "string list \<Rightarrow> string list \<Rightarrow> string list" where
  "suffix_duplicates new old =
     map ((!) new) (filter (\<lambda>i. duplicated new i \<and> \<not> duplicated old i) [0..<length new])"

definition suffix_clashes :: "string list \<Rightarrow> string list \<Rightarrow> string list" where
  "suffix_clashes left_names right_names =
     (let overlap = shared_names left_names right_names;
          llabels = map (suffixed overlap ''_x'') left_names;
          rlabels = map (suffixed overlap ''_y'') right_names
      in suffix_duplicates llabels left_names
         @ suffix_duplicates rlabels right_names
         @ filter (\<lambda>n. n \<in> set right_names \<and> n \<notin> set overlap) llabels
         @ filter (\<lambda>n. n \<in> set left_names \<and> n \<notin> set overlap) rlabels)"

definition merge_left :: "dataframe \<Rightarrow> dataframe \<Rightarrow> string \<Rightarrow> string \<Rightarrow> exn + dataframe" where
  "merge_left left right left_on right_on =
     (case column left left_on of
        Inl e \<Rightarrow> Inl e
      | Inr left_keys \<Rightarrow>
          (case column right right_on of
             Inl e \<Rightarrow> Inl e
           | Inr right_keys \<Rightarrow>
               if incompatible_keys left_keys right_keys then Inl ValueError
               else if suffix_clashes (columns left) (columns right) \<noteq> [] then Inl MergeError
               else
                 let rows = left_join_rows left_keys right_keys;
                     overlap = shared_names (columns left) (columns right)
                 in Inr (map (\<lambda>(n, xs). (suffixed overlap ''_x'' n,
                               take_rows xs (map (\<lambda>(i, j). Some i) rows))) left
                         @ map (\<lambda>(n, xs). (suffixed overlap ''_y'' n,
                                 take_rows xs (map (\<lambda>(i, j). j) rows))) right)))"

definition x_title_missing :: string where
  "x_title_missing = ''Error: 'title' column is missing from the x file.''"

definition progress_columns_missing :: string where
  "progress_columns_missing =
     ''Error: 'Title' or 'Rating' column is missing from the progress file.''"

definition merged_saved :: "string \<Rightarrow> string" where
  "merged_saved output_file = ''Merged data saved to: '' @ output_file"

definition merge_datasets :: "string \<Rightarrow> string \<Rightarrow> fs \<Rightarrow> (exn + unit) \<times> fs \<times> run_event list" where
  "merge_datasets x_file progress_file files =
     (case read_csv files x_file of
        Inl e \<Rightarrow> (Inl e, files, [])
      | Inr x_df \<Rightarrow>
          (case read_csv files progress_file of
             Inl e \<Rightarrow> (Inl e, files, [])
           | Inr progress_df \<Rightarrow>
               if ''title'' \<notin> set (columns x_df)
               then (Inr (), files, [Message x_title_missing])
               else if ''Title'' \<notin> set (columns progress_df)
                       \<or> ''Rating'' \<notin> set (columns progress_df)
               then (Inr (), files, [Message progress_columns_missing])
               else
                 let renamed_df = rename_column ''Rating'' ''IMDB_Rating'' progress_df in
                 (case merge_left x_df renamed_df ''title'' ''Title'' of
                    Inl e \<Rightarrow> (Inl e, files, [])
                  | Inr merged_df \<Rightarrow>
                      (case drop_columns merged_df [''Title''] of
                         Inl e \<Rightarrow> (Inl e, files, [])
                       | Inr dropped_df \<Rightarrow>
                           let output_file = replace x_file ''.csv'' ''_modified.csv'' in
                           (case to_csv dropped_df output_file files of
                              Inl e \<Rightarrow> (Inl e, files, [])
                            | Inr files' \<Rightarrow>
                                (Inr (), files',
                                 [Output output_file, Message (merged_saved output_file)]))))))"

text \<open>
  Tables for the examples of the merge. \<open>three_titles\<close> has three titles, of which one
  has two records in \<open>three_records\<close> and one has none, and a column \<open>Index\<close> of its
  own. The others each have, besides their \<open>title\<close> column: a \<open>Title\<close> column; an
  \<open>IMDB_Rating\<close> column; titles that are all numbers; the columns \<open>Index\<close> and
  \<open>Index_x\<close>.
\<close>

definition three_titles :: dataframe where
  "three_titles =
     [(''Index'', [Num 10, Num 11, Num 12]),
      (''title'', [Str ''a'', Str ''zz'', Str ''bb'']),
      (''year'', [Num 1999, Num 2001, Absent])]"

definition three_records :: dataframe where
  "three_records =
     DataFrame [(0, Str ''a'', Num 1), (2, Str ''bb'', Num 2), (0, Str ''a'', Absent)]"

definition both_titles :: dataframe where
  "both_titles = [(''title'', [Str ''a'']), (''Title'', [Str ''A''])]"

definition rated_titles :: dataframe where
  "rated_titles = [(''title'', [Str ''a'']), (''IMDB_Rating'', [Num 5])]"

definition numeric_titles :: dataframe where
  "numeric_titles = [(''title'', [Num 1917, Num 1984])]"

definition suffix_titles :: dataframe where
  "suffix_titles = [(''title'', [Str ''a'']), (''Index'', [Num 7]), (''Index_x'', [Num 8])]"

section \<open>Properties of the fetch operation\<close>

subsection \<open>The handlers\<close>

lemma except_chain_cleanup_handles:
  "isinstance e ExceptionC \<Longrightarrow> \<exists>h. except_chain clauses_cleanup e = Inr h"
  by (simp add: clauses_cleanup_def module_names_def)

lemma except_chain_imdb_handles:
  "isinstance e RequestExceptionC \<Longrightarrow> \<exists>h. except_chain clauses_imdb e = Inr h"
  by (simp add: clauses_imdb_def module_names_def)

lemma except_chain_imdb_unbound:
  "\<not> isinstance e RequestExceptionC \<Longrightarrow>
     except_chain clauses_imdb e = Inl (NameError ''HTTPError'')"
  by (cases e) (simp_all add: clauses_imdb_def module_names_def)

lemma try_body_search_raises:
  "search_movie ia title s = (Inl e, s1) \<Longrightarrow> try_body ia title s = (Inl e, s1, [Search title])"
  by (simp add: try_body_def)

lemma try_body_raises_cases:
  "try_body ia title s = (Inl e, s1, evs) \<Longrightarrow>
     (\<exists>s'. search_movie ia title s = (Inl e, s')) \<or>
     (\<exists>movie s0 s'. update ia movie s0 = (Inl e, s'))"
  by (auto simp: try_body_def split: prod.splits sum.splits list.splits)

lemma try_body_lookups: "lookups (snd (snd (try_body ia title s))) = 1"
  by (simp add: try_body_def lookups_def split: prod.splits sum.splits list.splits)

lemma try_body_delays: "delays (snd (snd (try_body ia title s))) = 0"
  by (simp add: try_body_def delays_def split: prod.splits sum.splits list.splits)

lemma lookups_append: "lookups (xs @ ys) = lookups xs + lookups ys"
  by (simp add: lookups_def)

lemma delays_append: "delays (xs @ ys) = delays xs + delays ys"
  by (simp add: delays_def)

subsection \<open>The retry loop\<close>

text \<open>
  When every pass through the body raises an exception that some clause handles, the
  loop makes all its attempts, sleeps after each and returns \<^verbatim>\<open>None\<close>.
\<close>

lemma attempts_exhausted:
  assumes fails: "\<And>s. \<exists>e s1 evs h.
      try_body ia title s = (Inl e, s1, evs) \<and> except_chain clauses e = Inr h"
  shows "fst (attempts clauses delay ia title n s) = Inr Absent
       \<and> lookups (snd (snd (attempts clauses delay ia title n s))) = n
       \<and> delays (snd (snd (attempts clauses delay ia title n s))) = n"
proof (induction n arbitrary: s)
  case 0
  show ?case by (simp add: lookups_def delays_def)
next
  case (Suc n)
  from fails [of s] obtain e s1 evs h where
    body: "try_body ia title s = (Inl e, s1, evs)" and chain: "except_chain clauses e = Inr h"
    by blast
  from try_body_lookups [of ia title s] body have l: "lookups evs = 1" by simp
  from try_body_delays [of ia title s] body have d: "delays evs = 0" by simp
  obtain r s2 evs' where rest: "attempts clauses delay ia title n s1 = (r, s2, evs')"
    by (cases "attempts clauses delay ia title n s1") auto
  from Suc.IH [of s1] rest have "r = Inr Absent" "lookups evs' = n" "delays evs' = n"
    by simp_all
  with body chain rest l d show ?case
    by (simp add: lookups_append delays_append) (simp add: lookups_def delays_def)
qed

text \<open>When every exception of the body is handled, the loop returns a value.\<close>

lemma attempts_returns:
  assumes only: "\<And>s e s1 evs.
      try_body ia title s = (Inl e, s1, evs) \<Longrightarrow> \<exists>h. except_chain clauses e = Inr h"
  shows "\<exists>r. fst (attempts clauses delay ia title n s) = Inr r"
proof (induction n arbitrary: s)
  case 0
  show ?case by simp
next
  case (Suc n)
  obtain b s1 evs where body: "try_body ia title s = (b, s1, evs)"
    by (cases "try_body ia title s") auto
  show ?case
  proof (cases b)
    case (Inr r)
    with body show ?thesis by simp
  next
    case (Inl e)
    with body only obtain h where chain: "except_chain clauses e = Inr h" by blast
    obtain r s2 evs' where rest: "attempts clauses delay ia title n s1 = (r, s2, evs')"
      by (cases "attempts clauses delay ia title n s1") auto
    from Suc.IH [of s1] rest obtain v where "r = Inr v" by auto
    with body Inl chain rest show ?thesis by simp
  qed
qed

subsection \<open>What holds of the fetch operation\<close>

text \<open>
  In \<^verbatim>\<open>cleanup_script.py\<close> the clause \<^verbatim>\<open>except Exception\<close> is reached, so the
  fetch operation returns whatever exception (deriving from \<^verbatim>\<open>Exception\<close>) the client
  raises, and a lookup that fails on every attempt costs three lookups and three delays.
\<close>

lemma get_imdb_rating_cleanup_never_raises:
  assumes "\<And>t s e s'. search_movie ia t s = (Inl e, s') \<Longrightarrow> isinstance e ExceptionC"
    and "\<And>m s e s'. update ia m s = (Inl e, s') \<Longrightarrow> isinstance e ExceptionC"
  shows "\<exists>r. fst (get_imdb_rating_cleanup ia title s) = Inr r"
  unfolding get_imdb_rating_cleanup_def Let_def
proof (rule attempts_returns)
  fix s e s1 evs
  assume "try_body ia title s = (Inl e, s1, evs)"
  from try_body_raises_cases [OF this] assms have "isinstance e ExceptionC" by blast
  then show "\<exists>h. except_chain clauses_cleanup e = Inr h"
    by (rule except_chain_cleanup_handles)
qed

lemma get_imdb_rating_cleanup_exhausted:
  assumes "\<And>s. \<exists>e s'. search_movie ia title s = (Inl e, s') \<and> isinstance e ExceptionC"
  shows "fst (get_imdb_rating_cleanup ia title s) = Inr Absent
       \<and> lookups (snd (snd (get_imdb_rating_cleanup ia title s))) = 3
       \<and> delays (snd (snd (get_imdb_rating_cleanup ia title s))) = 3"
proof -
  have "\<exists>e s1 evs h. try_body ia title s = (Inl e, s1, evs)
      \<and> except_chain clauses_cleanup e = Inr h" for s
  proof -
    from assms [of s] obtain e s' where
      a: "search_movie ia title s = (Inl e, s')" and b: "isinstance e ExceptionC"
      by blast
    from except_chain_cleanup_handles [OF b] obtain h
      where "except_chain clauses_cleanup e = Inr h" ..
    with try_body_search_raises [OF a] show ?thesis by blast
  qed
  from attempts_exhausted [of ia title clauses_cleanup 5 3 s, OF this]
  show ?thesis by (simp add: get_imdb_rating_cleanup_def)
qed

text \<open>
  In \<^verbatim>\<open>imdb_rating_script.py\<close> the same holds of the exceptions of
  \<^verbatim>\<open>requests\<close>, which the first two clauses handle.
\<close>

lemma get_imdb_rating_imdb_exhausted:
  assumes "\<And>s. \<exists>e s'. search_movie ia title s = (Inl e, s') \<and> isinstance e RequestExceptionC"
  shows "fst (get_imdb_rating_imdb ia title s) = Inr Absent
       \<and> lookups (snd (snd (get_imdb_rating_imdb ia title s))) = 3
       \<and> delays (snd (snd (get_imdb_rating_imdb ia title s))) = 3"
proof -
  have "\<exists>e s1 evs h. try_body ia title s = (Inl e, s1, evs)
      \<and> except_chain clauses_imdb e = Inr h" for s
  proof -
    from assms [of s] obtain e s' where
      a: "search_movie ia title s = (Inl e, s')" and b: "isinstance e RequestExceptionC"
      by blast
    from except_chain_imdb_handles [OF b] obtain h
      where "except_chain clauses_imdb e = Inr h" ..
    with try_body_search_raises [OF a] show ?thesis by blast
  qed
  from attempts_exhausted [of ia title clauses_imdb 5 3 s, OF this]
  show ?thesis by (simp add: get_imdb_rating_imdb_def)
qed

text \<open>An empty search result ends the fetch at once, in both scripts.\<close>

lemma no_match_returns_at_once:
  assumes "search_movie ia title s = (Inr [], s1)"
  shows "get_imdb_rating_imdb ia title s = (Inr Absent, s1, [Search title])"
    and "get_imdb_rating_cleanup ia title s = (Inr Absent, s1, [Search title])"
  using assms
  by (simp_all add: get_imdb_rating_imdb_def get_imdb_rating_cleanup_def try_body_def
      numeral_3_eq_3)

text \<open>
  Claim C1 (bounded retries: a lookup that raises on every attempt is invoked three
  times and the fetch returns \<^verbatim>\<open>None\<close>). In \<^verbatim>\<open>imdb_rating_script.py\<close> this fails
  for every exception that is not one of \<^verbatim>\<open>requests\<close>: for a lookup that raises
  \<^verbatim>\<open>IMDbDataAccessError\<close> on every call, the third \<^verbatim>\<open>except\<close> clause names
  the unbound \<^verbatim>\<open>HTTPError\<close>, so the fetch makes one lookup, does not sleep and raises
  \<^verbatim>\<open>NameError\<close>.
\<close>

theorem get_imdb_rating_imdb_data_access_error:
  "get_imdb_rating_imdb (raising IMDbDataAccessError) (Str ''Heat'') () =
     (Inl (NameError ''HTTPError''), (), [Search (Str ''Heat'')])"
  by (simp add: get_imdb_rating_imdb_def try_body_def raising_def numeral_3_eq_3
      clauses_imdb_def module_names_def)

text \<open>
  Claim C2 (the fetch operation never raises to its caller). In
  \<^verbatim>\<open>imdb_rating_script.py\<close> it raises \<^verbatim>\<open>NameError\<close> whenever a call of the
  client raises an exception that does not derive from \<^verbatim>\<open>RequestException\<close>.
\<close>

theorem get_imdb_rating_imdb_raises:
  assumes "try_body ia title s = (Inl e, s1, evs)" and "\<not> isinstance e RequestExceptionC"
  shows "get_imdb_rating_imdb ia title s = (Inl (NameError ''HTTPError''), s1, evs)"
  using assms
  by (simp add: get_imdb_rating_imdb_def numeral_3_eq_3 except_chain_imdb_unbound)

theorem get_imdb_rating_imdb_raises_witness:
  "try_body (raising ValueError) (Str ''Heat'') (0::nat) = (Inl ValueError, 0, [Search (Str ''Heat'')])
   \<and> \<not> isinstance ValueError RequestExceptionC
   \<and> get_imdb_rating_imdb (raising ValueError) (Str ''Heat'') (0::nat) =
       (Inl (NameError ''HTTPError''), 0, [Search (Str ''Heat'')])"
  using get_imdb_rating_imdb_raises
    [of "raising ValueError" "Str ''Heat''" "0::nat" ValueError 0 "[Search (Str ''Heat'')]"]
  by (simp add: try_body_def raising_def)

text \<open>
  Claim C9: when the search finds something and the first movie, once updated, has no
  \<open>rating\<close> field, the fetch returns \<^verbatim>\<open>None\<close> after one lookup and no delay, in
  both scripts; the other search results play no part.
\<close>

theorem unrated_movie_is_absent:
  assumes "search_movie ia title s = (Inr (movie # others), s1)"
    and "update ia movie s1 = (Inr movie', s2)"
    and "map_of movie' ''rating'' = None"
  shows "get_imdb_rating_imdb ia title s = (Inr Absent, s2, [Search title, Update movie])
       \<and> get_imdb_rating_cleanup ia title s = (Inr Absent, s2, [Search title, Update movie])
       \<and> lookups [Search title, Update movie] = 1
       \<and> delays [Search title, Update movie] = 0"
  using assms
  by (simp add: get_imdb_rating_imdb_def get_imdb_rating_cleanup_def try_body_def
      numeral_3_eq_3 movie_get_def lookups_def delays_def)

theorem unrated_movie_is_absent_witness:
  "get_imdb_rating_imdb finds_two (Str ''Heat'') () =
     (Inr Absent, (), [Search (Str ''Heat''), Update [(''title'', Str ''Heat'')]])
   \<and> get_imdb_rating_cleanup finds_two (Str ''Heat'') () =
     (Inr Absent, (), [Search (Str ''Heat''), Update [(''title'', Str ''Heat'')]])"
  using unrated_movie_is_absent [of finds_two "Str ''Heat''" "()"
      "[(''title'', Str ''Heat'')]" "[[(''rating'', Num 9)]]" "()" "[(''title'', Str ''Heat'')]" "()"]
  by (simp add: finds_two_def)

section \<open>Properties of the derived paths\<close>






section \<open>Properties of tables and of the worker\<close>

lemma map_of_map_keys:
  "n \<in> set names \<Longrightarrow> map_of (map (\<lambda>name. (name, f name)) names) n = Some (f n)"
  by (induction names) auto

lemma map_of_map_keys_None:
  "n \<notin> set names \<Longrightarrow> map_of (map (\<lambda>name. (name, f name)) names) n = None"
  by (induction names) auto

lemma columns_concat_df:
  "set (columns (concat_df a b)) = set (columns a) \<union> set (columns b)"
  by (auto simp: concat_df_def columns_def comp_def)

lemma map_of_concat_df:
  "n \<in> set (columns a) \<union> set (columns b) \<Longrightarrow>
     map_of (concat_df a b) n = Some (cells_of a n @ cells_of b n)"
  unfolding concat_df_def by (rule map_of_map_keys) auto

lemma column_concat_df:
  "n \<in> set (columns a) \<union> set (columns b) \<Longrightarrow>
     column (concat_df a b) n = Inr (cells_of a n @ cells_of b n)"
  by (simp add: column_def map_of_concat_df)

lemma cells_of_concat_df:
  "n \<in> set (columns a) \<union> set (columns b) \<Longrightarrow>
     cells_of (concat_df a b) n = cells_of a n @ cells_of b n"
  by (simp add: cells_of_def [of "concat_df a b"] map_of_concat_df)

lemma column_Inr_columns: "column df n = Inr xs \<Longrightarrow> n \<in> set (columns df)"
  by (auto simp: column_def columns_def split: option.splits intro: rev_image_eqI
      dest!: map_of_SomeD)

lemma columns_DataFrame:
  "progress \<noteq> [] \<Longrightarrow> columns (DataFrame progress) = [''Index'', ''Title'', ''Rating'']"
  by (simp add: DataFrame_def columns_def)

lemma len_DataFrame: "len (DataFrame progress) = length progress"
  by (simp add: DataFrame_def len_def)

lemma length_cells_of_DataFrame: "length (cells_of (DataFrame progress) n) = length progress"
  by (simp add: cells_of_def len_DataFrame split: option.splits)
     (auto simp: DataFrame_def split: if_splits)

lemma cells_of_DataFrame_Index:
  "cells_of (DataFrame progress) ''Index'' = map (\<lambda>p. Num (of_nat (fst p))) progress"
  by (simp add: cells_of_def DataFrame_def len_def case_prod_beta)

lemma cells_of_DataFrame_Rating:
  "cells_of (DataFrame progress) ''Rating'' = map (\<lambda>p. snd (snd p)) progress"
  by (simp add: cells_of_def DataFrame_def len_def case_prod_beta)

lemma cells_of_DataFrame_Title:
  "cells_of (DataFrame progress) ''Title'' = map (\<lambda>p. fst (snd p)) progress"
  by (simp add: cells_of_def DataFrame_def len_def case_prod_beta)

lemma len_concat_df:
  "a \<noteq> [] \<Longrightarrow> len (concat_df a (DataFrame progress)) = len a + length progress"
proof -
  assume "a \<noteq> []"
  then obtain n xs a' where a: "a = (n, xs) # a'" by (cases a) auto
  then have "cells_of a n = xs" by (simp add: cells_of_def)
  with a show ?thesis
    by (simp add: concat_df_def columns_def len_def length_cells_of_DataFrame)
qed

lemma zip3_projections:
  "length xs = length ys \<Longrightarrow> length ys = length zs \<Longrightarrow>
     map fst (zip xs (zip ys zs)) = xs \<and> map (\<lambda>p. snd (snd p)) (zip xs (zip ys zs)) = zs"
  by (induction xs ys zs rule: list_induct3) simp_all

lemma fetch_rows_Inr:
  "fetch_rows f titles indices = (Inr (ratings, progress), evs) \<Longrightarrow>
     evs = map Fetch indices
     \<and> progress = zip indices (zip (map ((!) titles) indices) ratings)
     \<and> length ratings = length indices
     \<and> (\<forall>i \<in> set indices. i < length titles)
     \<and> map (\<lambda>i. f (titles ! i)) indices = map Inr ratings"
proof (induction indices arbitrary: ratings progress evs)
  case Nil
  then show ?case by simp
next
  case (Cons index rest)
  from Cons.prems have lt: "index < length titles"
    by (simp split: if_splits)
  from Cons.prems lt obtain rating where f: "f (titles ! index) = Inr rating"
    by (cases "f (titles ! index)") (simp_all add: Let_def)
  from Cons.prems lt f obtain ratings' progress' evs' where
    rest: "fetch_rows f titles rest = (Inr (ratings', progress'), evs')"
    and res: "ratings = rating # ratings'" "progress = (index, titles ! index, rating) # progress'"
      "evs = Fetch index # evs'"
    by (auto simp: Let_def split: prod.splits sum.splits)
  from Cons.IH [OF rest] lt f res show ?case by simp
qed

lemma read_csv_Inr: "read_csv files path = Inr df \<longleftrightarrow> files path = Some (Csv df) \<and> df \<noteq> []"
  by (auto simp: read_csv_def split: option.splits node.splits if_splits)

lemma save_progress_Inr:
  assumes "save_progress progress pf files = Inr files'"
  shows "\<exists>new. files' = files(pf \<mapsto> Csv new)
      \<and> (files pf = None \<longrightarrow> new = DataFrame progress)
      \<and> (\<forall>old. files pf = Some (Csv old) \<longrightarrow> old \<noteq> [] \<and> new = concat_df old (DataFrame progress))"
  using assms
  by (auto simp: save_progress_def exists_def to_csv_def read_csv_Inr Let_def
      split: if_splits sum.splits)

lemma process_titles_cleanup_Inr:
  assumes "process_titles_cleanup f titles indices pf files = (Inr ratings, files', evs)"
  shows "\<exists>progress. fetch_rows f titles indices = (Inr (ratings, progress), map Fetch indices)
      \<and> save_progress progress pf files = Inr files' \<and> evs = map Fetch indices @ [Append pf]"
  using assms
  by (auto simp: process_titles_cleanup_def split: prod.splits sum.splits dest: fetch_rows_Inr)

lemma process_titles_imdb_cleanup:
  "process_titles_imdb f titles start_index end_index pf files =
     process_titles_cleanup f titles [start_index..<end_index] pf files"
  by (simp add: process_titles_imdb_def process_titles_cleanup_def)

text \<open>
  Claim C6: one append keeps every stored record and adds the records of the batch, and
  a worker appends once, after the last row of its batch. For a worker of either script
  that completes, the progress file afterwards holds, in every column of the stored
  table and of the batch, the stored cells followed by the cells of the batch (the table
  of the batch alone when there was no file); nothing else in the file system changes;
  the events are the fetches of the batch in order and then one append.
\<close>

theorem process_titles_appends_once:
  assumes "process_titles_cleanup f titles indices pf files = (Inr ratings, files', evs)
    \<or> (indices = [start_index..<end_index]
        \<and> process_titles_imdb f titles start_index end_index pf files = (Inr ratings, files', evs))"
  shows "\<exists>progress new.
      progress = zip indices (zip (map ((!) titles) indices) ratings)
      \<and> length ratings = length indices
      \<and> cells_of (DataFrame progress) ''Index'' = map (\<lambda>i. Num (of_nat i)) indices
      \<and> cells_of (DataFrame progress) ''Rating'' = ratings
      \<and> files' = files(pf \<mapsto> Csv new)
      \<and> (files pf = None \<longrightarrow> new = DataFrame progress)
      \<and> (\<forall>old. files pf = Some (Csv old) \<longrightarrow>
            len new = len old + length indices
            \<and> (\<forall>n \<in> set (columns old) \<union> set (columns (DataFrame progress)).
                  column new n = Inr (cells_of old n @ cells_of (DataFrame progress) n)))
      \<and> evs = map Fetch indices @ [Append pf]"
proof -
  from assms have run: "process_titles_cleanup f titles indices pf files = (Inr ratings, files', evs)"
    by (auto simp: process_titles_imdb_cleanup)
  from process_titles_cleanup_Inr [OF run] obtain progress where
    rows: "fetch_rows f titles indices = (Inr (ratings, progress), map Fetch indices)"
    and save: "save_progress progress pf files = Inr files'"
    and evs: "evs = map Fetch indices @ [Append pf]"
    by blast
  from fetch_rows_Inr [OF rows] have
    progress: "progress = zip indices (zip (map ((!) titles) indices) ratings)"
    and len: "length ratings = length indices"
    by simp_all
  from progress len have lp: "length progress = length indices" by simp
  from progress len have idx: "map fst progress = indices"
    by (simp add: zip3_projections)
  from progress len have rat: "map (\<lambda>p. snd (snd p)) progress = ratings"
    by (simp add: zip3_projections)
  from save_progress_Inr [OF save] obtain new where
    new: "files' = files(pf \<mapsto> Csv new)"
    and fresh: "files pf = None \<longrightarrow> new = DataFrame progress"
    and old: "\<forall>old. files pf = Some (Csv old) \<longrightarrow> old \<noteq> [] \<and> new = concat_df old (DataFrame progress)"
    by (elim exE conjE) (rule that, assumption+)
  have "map (\<lambda>p. Num (of_nat (fst p))) progress = map (\<lambda>i. Num (of_nat i)) (map fst progress)"
    by (simp add: comp_def)
  then have a: "cells_of (DataFrame progress) ''Index'' = map (\<lambda>i. Num (of_nat i)) indices"
    by (simp only: cells_of_DataFrame_Index idx)
  have b: "cells_of (DataFrame progress) ''Rating'' = ratings"
    using rat by (simp add: cells_of_DataFrame_Rating)
  have c: "\<forall>old. files pf = Some (Csv old) \<longrightarrow>
            len new = len old + length indices
            \<and> (\<forall>n \<in> set (columns old) \<union> set (columns (DataFrame progress)).
                  column new n = Inr (cells_of old n @ cells_of (DataFrame progress) n))"
    using old lp by (auto simp: len_concat_df column_concat_df)
  show ?thesis
    apply (rule exI [of _ progress])
    apply (rule exI [of _ new])
    using progress len a b new fresh c evs apply simp
    done
qed

text \<open>The example client rates a title with its length.\<close>

lemma fetch_finds_one:
  "fetch_imdb finds_one (Str t) = Inr (Num (of_nat (length t)))"
  "fetch_cleanup finds_one (Str t) = Inr (Num (of_nat (length t)))"
  by (simp_all add: fetch_imdb_def fetch_cleanup_def get_imdb_rating_imdb_def
      get_imdb_rating_cleanup_def try_body_def finds_one_def rated_def movie_get_def
      numeral_3_eq_3)

theorem process_titles_appends_once_witness:
  "process_titles_cleanup (fetch_cleanup finds_one) ten_titles [6, 5] ''p.csv''
       (Map.empty(''p.csv'' \<mapsto> Csv five_done)) =
     (Inr [Num 7, Num 6],
      (Map.empty(''p.csv'' \<mapsto> Csv five_done))(''p.csv'' \<mapsto>
         Csv (concat_df five_done (DataFrame [(6, Str ''ggggggg'', Num 7), (5, Str ''ffffff'', Num 6)]))),
      [Fetch 6, Fetch 5, Append ''p.csv''])
   \<and> column (concat_df five_done (DataFrame [(6, Str ''ggggggg'', Num 7), (5, Str ''ffffff'', Num 6)]))
        ''Index'' = Inr [Num 0, Num 1, Num 2, Num 3, Num 4, Num 6, Num 5]"
proof -
  have run: "process_titles_cleanup (fetch_cleanup finds_one) ten_titles [6, 5] ''p.csv''
       (Map.empty(''p.csv'' \<mapsto> Csv five_done)) =
     (Inr [Num 7, Num 6],
      (Map.empty(''p.csv'' \<mapsto> Csv five_done))(''p.csv'' \<mapsto>
         Csv (concat_df five_done (DataFrame [(6, Str ''ggggggg'', Num 7), (5, Str ''ffffff'', Num 6)]))),
      [Fetch 6, Fetch 5, Append ''p.csv''])"
    by (simp add: process_titles_cleanup_def ten_titles_def fetch_finds_one save_progress_def
        exists_def read_csv_def to_csv_def five_done_def DataFrame_def)
  from process_titles_appends_once [OF disjI1, OF run]
  obtain progress new where
    p: "progress = zip [6, 5] (zip (map ((!) ten_titles) [6, 5]) [Num 7, Num 6])"
    and n: "(Map.empty(''p.csv'' \<mapsto> Csv five_done))(''p.csv'' \<mapsto>
         Csv (concat_df five_done (DataFrame [(6, Str ''ggggggg'', Num 7), (5, Str ''ffffff'', Num 6)])))
       = (Map.empty(''p.csv'' \<mapsto> Csv five_done))(''p.csv'' \<mapsto> Csv new)"
    and c: "\<forall>old. (Map.empty(''p.csv'' \<mapsto> Csv five_done)) ''p.csv'' = Some (Csv old) \<longrightarrow>
            len new = len old + length [6::nat, 5]
            \<and> (\<forall>n \<in> set (columns old) \<union> set (columns (DataFrame progress)).
                  column new n = Inr (cells_of old n @ cells_of (DataFrame progress) n))"
    by (elim exE conjE) (rule that, assumption+)
  have new: "new = concat_df five_done (DataFrame [(6, Str ''ggggggg'', Num 7), (5, Str ''ffffff'', Num 6)])"
    using map_upd_eqD1 [OF n] by simp
  from c have "column new ''Index'' = Inr (cells_of five_done ''Index'' @ cells_of (DataFrame progress) ''Index'')"
    by (simp add: five_done_def DataFrame_def columns_def)
  with p new run show ?thesis
    by (simp add: five_done_def DataFrame_def cells_of_def ten_titles_def)
qed

section \<open>Properties of the command line\<close>

lemma isfile_read_csv: "read_csv files path = Inr df \<Longrightarrow> isfile files path"
  by (auto simp: read_csv_def isfile_def split: option.splits node.splits if_splits)

text \<open>
  Claim C7: with a wrong number of arguments, or with a path that is no file, either
  program prints one message and exits with status 1, the files untouched and nothing
  fetched; when the input table has no \<open>title\<close> column it prints the error and returns,
  the files untouched (no output file), with status 0.
\<close>

theorem main_rejects_bad_invocations:
  "(length argv \<noteq> 2 \<longrightarrow>
      main_imdb write_order completed ia argv files = (1, files, [Message usage])
      \<and> main_cleanup set_order write_order completed ia argv files = (1, files, [Message usage]))
   \<and> (length argv = 2 \<and> \<not> isfile files (argv ! 1) \<longrightarrow>
      main_imdb write_order completed ia argv files =
        (1, files, [Message (not_a_file (argv ! 1))])
      \<and> main_cleanup set_order write_order completed ia argv files =
        (1, files, [Message (not_a_file (argv ! 1))]))
   \<and> (length argv = 2 \<and> read_csv files (argv ! 1) = Inr df \<and> ''title'' \<notin> set (columns df) \<longrightarrow>
      main_imdb write_order completed ia argv files =
        (0, files, [Message starting, Message title_missing])
      \<and> main_cleanup set_order write_order completed ia argv files =
        (0, files, [Message starting, Message title_missing]))"
  by (auto simp: main_imdb_def main_cleanup_def main_def add_imdb_ratings_imdb_def
      add_imdb_ratings_cleanup_def isfile_read_csv)

theorem main_rejects_bad_invocations_witness:
  "main_imdb [] [] finds_one [''script.py''] Map.empty = (1, Map.empty, [Message usage])
   \<and> main_cleanup id [] [] finds_one [''script.py'', ''in.csv''] Map.empty =
       (1, Map.empty, [Message (not_a_file ''in.csv'')])
   \<and> main_cleanup id [] [] finds_one [''script.py'', ''in.csv'']
       (Map.empty(''in.csv'' \<mapsto> Csv [(''name'', [Str ''a''])])) =
       (0, Map.empty(''in.csv'' \<mapsto> Csv [(''name'', [Str ''a''])]),
        [Message starting, Message title_missing])"
  using main_rejects_bad_invocations [of "[''script.py'']" "[]" "[]" finds_one Map.empty id]
    main_rejects_bad_invocations [of "[''script.py'', ''in.csv'']" "[]" "[]" finds_one Map.empty id]
    main_rejects_bad_invocations [of "[''script.py'', ''in.csv'']" "[]" "[]" finds_one
      "Map.empty(''in.csv'' \<mapsto> Csv [(''name'', [Str ''a''])])" id "[(''name'', [Str ''a''])]"]
  by (simp add: isfile_def read_csv_def columns_def)

section \<open>Properties of the output and of the paths\<close>











section \<open>Properties of the pipeline\<close>

subsection \<open>The vector keeps its length and holds only values it was given\<close>

lemma store_pairs_length: "length (store_pairs pairs ratings) = length ratings"
  by (induction pairs ratings rule: store_pairs.induct) simp_all

lemma store_pairs_set:
  "set (store_pairs pairs ratings) \<subseteq> set ratings \<union> snd ` set pairs"
proof (induction pairs ratings rule: store_pairs.induct)
  case (1 ratings)
  show ?case by simp
next
  case (2 index rating pairs ratings)
  have "set (ratings[index := rating]) \<subseteq> insert rating (set ratings)"
    by (rule set_update_subset_insert)
  with 2 show ?case by (auto split: if_splits)
qed

lemma collect_Inr:
  assumes "collect store results completed ratings = Inr ratings'"
    and "\<And>b rs r. map_of results b = Some (Inr rs) \<Longrightarrow>
           length (store rs r) = length r \<and> set (store rs r) \<subseteq> set r \<union> V"
  shows "length ratings' = length ratings \<and> set ratings' \<subseteq> set ratings \<union> V"
  using assms(1)
proof (induction completed arbitrary: ratings)
  case Nil
  then show ?case by simp
next
  case (Cons b completed)
  show ?case
  proof (cases "map_of results b")
    case None
    with Cons show ?thesis by simp
  next
    case (Some r)
    show ?thesis
    proof (cases r)
      case (Inl e)
      with Some Cons.prems show ?thesis by simp
    next
      case (Inr rs)
      with Some Cons.prems have "collect store results completed (store rs ratings) = Inr ratings'"
        by simp
      from Cons.IH [OF this] assms(2) [of b rs ratings] Some Inr show ?thesis by auto
    qed
  qed
qed

lemma setitem_Inr:
  "setitem xs i v = Inr ys \<Longrightarrow> length ys = length xs \<and> set ys \<subseteq> insert v (set xs)"
  by (auto simp: setitem_def split: if_splits dest: set_update_subset_insert [THEN subsetD])

lemma fill_Inr:
  "fill rows ratings = Inr ratings' \<Longrightarrow>
     length ratings' = length ratings \<and> set ratings' \<subseteq> set ratings \<union> snd ` set rows"
proof (induction rows ratings rule: fill.induct)
  case (1 ratings)
  then show ?case by simp
next
  case (2 index rating rows ratings)
  from 2(2) obtain i where i: "py_int index = Inr i"
    by (cases "py_int index") simp_all
  from 2(2) i obtain r where r: "setitem ratings i rating = Inr r"
    by (cases "setitem ratings i rating") simp_all
  from 2(2) i r have "fill rows r = Inr ratings'" by simp
  from 2(1) [OF i r this] setitem_Inr [OF r] show ?case by auto
qed

lemma run_workers_invariant:
  assumes "run_workers worker order files = (results, files', evs)"
    and "P files"
    and "\<And>b fs r fs' ev. b \<in> set order \<Longrightarrow> P fs \<Longrightarrow> worker b fs = (r, fs', ev) \<Longrightarrow> P fs' \<and> Q b r"
  shows "P files' \<and> (\<forall>b r. (b, r) \<in> set results \<longrightarrow> Q b r)"
  using assms
proof (induction order arbitrary: files results evs files')
  case Nil
  then show ?case by simp
next
  case (Cons b bs)
  obtain r files1 ev where w: "worker b files = (r, files1, ev)"
    by (cases "worker b files") auto
  obtain rs files2 evs' where rest: "run_workers worker bs files1 = (rs, files2, evs')"
    by (cases "run_workers worker bs files1") auto
  from Cons.prems(1) w rest have res: "results = (b, r) # rs" "files' = files2"
    by simp_all
  from Cons.prems(3) [of b files r files1 ev] Cons.prems(2) w have step: "P files1" "Q b r"
    by simp_all
  have "P files2 \<and> (\<forall>b r. (b, r) \<in> set rs \<longrightarrow> Q b r)"
  proof (rule Cons.IH [OF rest step(1)])
    fix b' fs r' fs' ev'
    assume "b' \<in> set bs" "P fs" "worker b' fs = (r', fs', ev')"
    with Cons.prems(3) [of b' fs r' fs' ev'] show "P fs' \<and> Q b' r'" by simp
  qed
  with res step show ?case by auto
qed

lemma fetch_rows_values:
  assumes "fetch_rows f titles indices = (Inr (ratings, progress), evs)"
  shows "set ratings \<subseteq> {r. \<exists>t \<in> set titles. f t = Inr r}"
proof
  fix r assume "r \<in> set ratings"
  then obtain k where k: "k < length ratings" "ratings ! k = r"
    by (auto simp: in_set_conv_nth)
  from fetch_rows_Inr [OF assms] have
    len: "length ratings = length indices"
    and lt: "\<forall>i \<in> set indices. i < length titles"
    and m: "map (\<lambda>i. f (titles ! i)) indices = map Inr ratings"
    by simp_all
  from k len have "(map (\<lambda>i. f (titles ! i)) indices) ! k = f (titles ! (indices ! k))"
    by simp
  with m k have "f (titles ! (indices ! k)) = Inr r" by simp
  moreover from k len lt have "titles ! (indices ! k) \<in> set titles" by simp
  ultimately show "r \<in> {r. \<exists>t \<in> set titles. f t = Inr r}" by blast
qed

lemma process_titles_cleanup_values:
  assumes "process_titles_cleanup f titles indices pf files = (Inr ratings, files', evs)"
  shows "set ratings \<subseteq> {r. \<exists>t \<in> set titles. f t = Inr r}"
proof -
  from process_titles_cleanup_Inr [OF assms] obtain progress where
    "fetch_rows f titles indices = (Inr (ratings, progress), map Fetch indices)" by blast
  then show ?thesis by (rule fetch_rows_values)
qed

lemma process_titles_cleanup_Inl:
  "process_titles_cleanup f titles indices pf files = (Inl e, files', evs) \<Longrightarrow> files' = files"
  by (auto simp: process_titles_cleanup_def split: prod.splits sum.splits)

lemma save_progress_Inr_node:
  "save_progress progress pf files = Inr files' \<Longrightarrow>
     files pf = None \<or> (\<exists>old. files pf = Some (Csv old))"
  by (auto simp: save_progress_def exists_def read_csv_Inr Let_def split: if_splits sum.splits)

lemma store_imdb_Inr:
  "length (store_imdb start_index rs r) = length r
   \<and> set (store_imdb start_index rs r) \<subseteq> set r \<union> set rs"
proof -
  have "snd ` set (zip (map (\<lambda>i. start_index + i) [0..<length rs]) rs) \<subseteq> set rs"
    by (auto dest: set_zip_rightD)
  with store_pairs_set [of "zip (map (\<lambda>i. start_index + i) [0..<length rs]) rs" r]
  show ?thesis by (auto simp: store_imdb_def store_pairs_length)
qed

lemma store_cleanup_Inr:
  "length (store_cleanup batch_indices rs r) = length r
   \<and> set (store_cleanup batch_indices rs r) \<subseteq> set r \<union> set rs"
proof -
  have "snd ` set (zip batch_indices rs) \<subseteq> set rs"
    by (auto dest: set_zip_rightD)
  with store_pairs_set [of "zip batch_indices rs" r]
  show ?thesis by (auto simp: store_cleanup_def store_pairs_length)
qed

lemma ratings_imdb_Inr:
  assumes "ratings_imdb wo co f df pf files = (Inr ratings, files1, evs)"
  shows "length ratings = len df
       \<and> set ratings \<subseteq> insert Absent {r. \<exists>t \<in> set (cells_of df ''title''). f t = Inr r}"
proof -
  let ?titles = "cells_of df ''title''"
  let ?F = "{r. \<exists>t \<in> set ?titles. f t = Inr r}"
  from assms obtain ttp where ttp: "load_titles_to_process files pf ?titles = Inr ttp"
    by (cases "load_titles_to_process files pf ?titles") (simp_all add: ratings_imdb_def)
  let ?n = "(length ttp + 5 - 1) div 5"
  let ?worker = "\<lambda>batch. process_titles_imdb f ?titles (batch * 5) (min (batch * 5 + 5) (length ttp)) pf"
  obtain results fs1 ev where run:
    "run_workers ?worker (filter (\<lambda>b. b < ?n) wo) files = (results, fs1, ev)"
    by (cases "run_workers ?worker (filter (\<lambda>b. b < ?n) wo) files") auto
  from assms ttp run have col:
    "collect (store_imdb ((?n - 1) * 5)) results co (replicate (len df) Absent) = Inr ratings"
    by (simp add: ratings_imdb_def Let_def split: sum.splits)
  have "True \<and> (\<forall>b r. (b, r) \<in> set results \<longrightarrow> (\<forall>rs. r = Inr rs \<longrightarrow> set rs \<subseteq> ?F))"
  proof (rule run_workers_invariant [OF run, where P = "\<lambda>_. True"])
    show True ..
  next
    fix b fs r fs' ev
    assume "?worker b fs = (r, fs', ev)"
    then show "True \<and> (\<forall>rs. r = Inr rs \<longrightarrow> set rs \<subseteq> ?F)"
      by (auto simp: process_titles_imdb_cleanup dest: process_titles_cleanup_values)
  qed
  then have res: "\<And>b rs. map_of results b = Some (Inr rs) \<Longrightarrow> set rs \<subseteq> ?F"
    by (blast dest: map_of_SomeD)
  have "length ratings = length (replicate (len df) Absent)
      \<and> set ratings \<subseteq> set (replicate (len df) Absent) \<union> ?F"
  proof (rule collect_Inr [OF col])
    fix b rs r
    assume "map_of results b = Some (Inr rs)"
    from res [OF this] store_imdb_Inr [of "(?n - 1) * 5" rs r]
    show "length (store_imdb ((?n - 1) * 5) rs r) = length r
        \<and> set (store_imdb ((?n - 1) * 5) rs r) \<subseteq> set r \<union> ?F"
      by auto
  qed
  then show ?thesis by auto
qed


lemma cells_of_column: "column df n = Inr xs \<Longrightarrow> cells_of df n = xs"
  by (auto simp: column_def cells_of_def split: option.splits)

lemma cells_of_concat_df_subset:
  "set (cells_of (concat_df a b) n) \<subseteq> insert Absent (set (cells_of a n) \<union> set (cells_of b n))"
proof (cases "n \<in> set (columns a) \<union> set (columns b)")
  case True
  then show ?thesis by (auto simp: cells_of_concat_df)
next
  case False
  then have "map_of (concat_df a b) n = None"
    unfolding concat_df_def by (intro map_of_map_keys_None) auto
  then show ?thesis by (auto simp: cells_of_def [of "concat_df a b"])
qed

lemma worker_keeps_ratings:
  assumes w: "process_titles_cleanup f titles indices pf fs = (r, fs', ev)"
    and P: "\<forall>t. fs pf = Some (Csv t) \<longrightarrow> set (cells_of t ''Rating'') \<subseteq> V"
    and V: "Absent \<in> V" "{r. \<exists>t \<in> set titles. f t = Inr r} \<subseteq> V"
  shows "(\<forall>t. fs' pf = Some (Csv t) \<longrightarrow> set (cells_of t ''Rating'') \<subseteq> V)
       \<and> (\<forall>rs. r = Inr rs \<longrightarrow> set rs \<subseteq> {r. \<exists>t \<in> set titles. f t = Inr r})"
proof (cases r)
  case (Inl e)
  with w have "fs' = fs" by (auto dest: process_titles_cleanup_Inl)
  with P Inl show ?thesis by simp
next
  case (Inr ratings)
  with w have run: "process_titles_cleanup f titles indices pf fs = (Inr ratings, fs', ev)"
    by simp
  from process_titles_cleanup_values [OF run]
  have vals: "set ratings \<subseteq> {r. \<exists>t \<in> set titles. f t = Inr r}" .
  from process_titles_cleanup_Inr [OF run] obtain progress where
    rows: "fetch_rows f titles indices = (Inr (ratings, progress), map Fetch indices)"
    and save: "save_progress progress pf fs = Inr fs'"
    by blast
  from fetch_rows_Inr [OF rows] have
    "progress = zip indices (zip (map ((!) titles) indices) ratings)"
    "length ratings = length indices"
    by simp_all
  then have "map (\<lambda>p. snd (snd p)) progress = ratings"
    by (simp add: zip3_projections)
  then have batch: "cells_of (DataFrame progress) ''Rating'' = ratings"
    by (simp add: cells_of_DataFrame_Rating)
  from save_progress_Inr [OF save] obtain new where
    new: "fs' = fs(pf \<mapsto> Csv new)"
    and fresh: "fs pf = None \<longrightarrow> new = DataFrame progress"
    and old: "\<forall>old. fs pf = Some (Csv old) \<longrightarrow> old \<noteq> [] \<and> new = concat_df old (DataFrame progress)"
    by (elim exE conjE) (rule that, assumption+)
  have "set (cells_of new ''Rating'') \<subseteq> V"
  proof -
    from save_progress_Inr_node [OF save] consider
      "fs pf = None" | old where "fs pf = Some (Csv old)" by auto
    then show ?thesis
    proof cases
      case 1
      with fresh batch vals V show ?thesis by auto
    next
      case 2
      with old have "new = concat_df old (DataFrame progress)" by simp
      with cells_of_concat_df_subset [of old "DataFrame progress" "''Rating''"] batch
      have "set (cells_of new ''Rating'') \<subseteq> insert Absent (set (cells_of old ''Rating'') \<union> set ratings)"
        by simp
      moreover from P 2 have "set (cells_of old ''Rating'') \<subseteq> V" by simp
      ultimately show ?thesis using vals V by blast
    qed
  qed
  with new vals Inr show ?thesis by simp
qed

lemma final_fill_Inr:
  assumes "final_fill fs pf r = Inr r'"
    and P: "\<forall>t. fs pf = Some (Csv t) \<longrightarrow> set (cells_of t ''Rating'') \<subseteq> V"
  shows "length r' = length r \<and> set r' \<subseteq> set r \<union> V"
proof (cases "exists fs pf")
  case False
  with assms show ?thesis by (simp add: final_fill_def)
next
  case True
  with assms(1) obtain t where t: "read_csv fs pf = Inr t" and f: "fill_from_progress t r = Inr r'"
    by (cases "read_csv fs pf") (simp_all add: final_fill_def)
  from t P have sub: "set (cells_of t ''Rating'') \<subseteq> V" by (simp add: read_csv_Inr)
  show ?thesis
  proof (cases "len t = 0")
    case True
    with f show ?thesis by (simp add: fill_from_progress_def)
  next
    case False
    with f obtain rc ic where rc: "column t ''Rating'' = Inr rc"
      and ic: "column t ''Index'' = Inr ic" and fl: "fill (zip ic rc) r = Inr r'"
      by (auto simp: fill_from_progress_def split: sum.splits)
    from cells_of_column [OF rc] sub have "set rc \<subseteq> V" by simp
    moreover have "snd ` set (zip ic rc) \<subseteq> set rc" by (auto dest: set_zip_rightD)
    moreover from fill_Inr [OF fl] have "length r' = length r"
      and "set r' \<subseteq> set r \<union> snd ` set (zip ic rc)" by simp_all
    ultimately show ?thesis by blast
  qed
qed

lemma ratings_cleanup_Inr:
  assumes "ratings_cleanup so wo co f df pf files = (Inr ratings, files1, evs)"
  shows "length ratings = len df
       \<and> set ratings \<subseteq> insert Absent ({r. \<exists>t \<in> set (cells_of df ''title''). f t = Inr r}
            \<union> {c. \<exists>old. files pf = Some (Csv old) \<and> c \<in> set (cells_of old ''Rating'')})"
proof -
  let ?titles = "cells_of df ''title''"
  let ?F = "{r. \<exists>t \<in> set ?titles. f t = Inr r}"
  let ?V = "insert Absent (?F \<union> {c. \<exists>old. files pf = Some (Csv old) \<and> c \<in> set (cells_of old ''Rating'')})"
  let ?P = "\<lambda>fs. \<forall>t. fs pf = Some (Csv t) \<longrightarrow> set (cells_of t ''Rating'') \<subseteq> ?V"
  from assms obtain processed where pr: "load_processed files pf = Inr processed"
    by (cases "load_processed files pf") (simp_all add: ratings_cleanup_def)
  let ?un = "unprocessed so processed (len df)"
  let ?n = "(length ?un + 5 - 1) div 5"
  let ?batches = "map (\<lambda>batch. take 5 (drop (batch * 5) ?un)) [0..<?n]"
  let ?worker = "\<lambda>batch. process_titles_cleanup f ?titles (?batches ! batch) pf"
  let ?bi = "if ?batches = [] then [] else last ?batches"
  obtain results fs1 ev where run:
    "run_workers ?worker (filter (\<lambda>b. b < ?n) wo) files = (results, fs1, ev)"
    by (cases "run_workers ?worker (filter (\<lambda>b. b < ?n) wo) files") auto
  have eq: "(case collect (store_cleanup ?bi) results co (replicate (len df) Absent) of
        Inl e \<Rightarrow> (Inl e, fs1, ev)
      | Inr ratings1 \<Rightarrow>
          (case final_fill fs1 pf ratings1 of
             Inl e \<Rightarrow> (Inl e, fs1, ev)
           | Inr ratings2 \<Rightarrow> (Inr ratings2, fs1, ev))) = (Inr ratings, files1, evs)"
    using assms by (simp only: ratings_cleanup_def Let_def pr sum.case run prod.case)
  obtain ratings1 where
    col: "collect (store_cleanup ?bi) results co (replicate (len df) Absent) = Inr ratings1"
    and fin: "final_fill fs1 pf ratings1 = Inr ratings"
  proof (cases "collect (store_cleanup ?bi) results co (replicate (len df) Absent)")
    case (Inl e)
    with eq show ?thesis by simp
  next
    case (Inr ratings1)
    with eq have eq2: "(case final_fill fs1 pf ratings1 of
             Inl e \<Rightarrow> (Inl e, fs1, ev)
           | Inr ratings2 \<Rightarrow> (Inr ratings2, fs1, ev)) = (Inr ratings, files1, evs)"
      by (simp only: sum.case)
    show ?thesis
    proof (cases "final_fill fs1 pf ratings1")
      case (Inl e)
      with eq2 show ?thesis by simp
    next
      case r: (Inr ratings2)
      with eq2 have "ratings2 = ratings" by (simp only: sum.case prod.inject sum.inject)
      with r Inr that show ?thesis by simp
    qed
  qed
  have inv: "?P fs1 \<and> (\<forall>b r. (b, r) \<in> set results \<longrightarrow> (\<forall>rs. r = Inr rs \<longrightarrow> set rs \<subseteq> ?F))"
  proof (rule run_workers_invariant [OF run, where P = ?P])
    show "?P files" by auto
  next
    fix b fs r fs' ev
    assume "?P fs" and "?worker b fs = (r, fs', ev)"
    from worker_keeps_ratings [OF this(2) this(1)]
    show "?P fs' \<and> (\<forall>rs. r = Inr rs \<longrightarrow> set rs \<subseteq> ?F)" by auto
  qed
  then have res: "\<And>b rs. map_of results b = Some (Inr rs) \<Longrightarrow> set rs \<subseteq> ?F"
    by (blast dest: map_of_SomeD)
  have one: "length ratings1 = length (replicate (len df) Absent)
      \<and> set ratings1 \<subseteq> set (replicate (len df) Absent) \<union> ?F"
  proof (rule collect_Inr [OF col])
    fix b rs r
    assume "map_of results b = Some (Inr rs)"
    from res [OF this] store_cleanup_Inr [of ?bi rs r]
    show "length (store_cleanup ?bi rs r) = length r
        \<and> set (store_cleanup ?bi rs r) \<subseteq> set r \<union> ?F"
      by auto
  qed
  from inv have "?P fs1" ..
  from final_fill_Inr [OF fin this] one show ?thesis by auto
qed

text \<open>
  Claim C5: the vector of ratings that a run which succeeds hands to the output writer
  has one entry for each row of the input table, and each entry is \<^verbatim>\<open>None\<close>, a
  value fetched in this run for one of the titles or, in \<^verbatim>\<open>cleanup_script.py\<close>, a
  rating recorded in the progress file the run started with.
\<close>

theorem ratings_vector_complete:
  "(ratings_imdb write_order completed f df progress_file files = (Inr ratings, files1, evs) \<longrightarrow>
      length ratings = len df
      \<and> (\<forall>i < len df. ratings ! i = Absent
            \<or> (\<exists>t \<in> set (cells_of df ''title''). f t = Inr (ratings ! i))))
   \<and> (ratings_cleanup set_order write_order completed f df progress_file files =
        (Inr ratings, files1, evs) \<longrightarrow>
      length ratings = len df
      \<and> (\<forall>i < len df. ratings ! i = Absent
            \<or> (\<exists>t \<in> set (cells_of df ''title''). f t = Inr (ratings ! i))
            \<or> (\<exists>old. files progress_file = Some (Csv old)
                  \<and> ratings ! i \<in> set (cells_of old ''Rating''))))"
proof (intro conjI impI allI)
  assume a: "ratings_imdb write_order completed f df progress_file files = (Inr ratings, files1, evs)"
  from ratings_imdb_Inr [OF a] show "length ratings = len df" by simp
  fix i assume "i < len df"
  with ratings_imdb_Inr [OF a] have "ratings ! i \<in> set ratings" by simp
  with ratings_imdb_Inr [OF a]
  show "ratings ! i = Absent \<or> (\<exists>t \<in> set (cells_of df ''title''). f t = Inr (ratings ! i))"
    by auto
next
  assume a: "ratings_cleanup set_order write_order completed f df progress_file files =
      (Inr ratings, files1, evs)"
  from ratings_cleanup_Inr [OF a] show "length ratings = len df" by simp
  fix i assume "i < len df"
  with ratings_cleanup_Inr [OF a] have "ratings ! i \<in> set ratings" by simp
  with ratings_cleanup_Inr [OF a]
  show "ratings ! i = Absent
      \<or> (\<exists>t \<in> set (cells_of df ''title''). f t = Inr (ratings ! i))
      \<or> (\<exists>old. files progress_file = Some (Csv old) \<and> ratings ! i \<in> set (cells_of old ''Rating''))"
    by auto
qed

theorem ratings_vector_complete_witness:
  "fst (ratings_imdb [0, 1] [1, 0] (fetch_imdb finds_one) ten_rows ''in_progress.csv'' Map.empty)
     = Inr [Absent, Absent, Absent, Absent, Absent, Num 1, Num 2, Num 3, Num 4, Num 5]
   \<and> fst (ratings_cleanup id [0] [0] (fetch_cleanup finds_one) ten_rows ''in_progress.csv''
        (Map.empty(''in_progress.csv'' \<mapsto> Csv five_done)))
     = Inr [Num 1, Num 2, Num 3, Num 4, Num 5, Num 6, Num 7, Num 8, Num 9, Num 10]
   \<and> length [Absent, Absent, Absent, Absent, Absent, Num 1, Num 2, Num 3, Num 4, Num 5]
       = len ten_rows
   \<and> length [Num 1, Num 2, Num 3, Num 4, Num 5, Num 6, Num 7, Num 8, Num 9, Num (10::rat)]
       = len ten_rows"
proof -
  have a: "fst (ratings_imdb [0, 1] [1, 0] (fetch_imdb finds_one) ten_rows ''in_progress.csv'' Map.empty)
     = Inr [Absent, Absent, Absent, Absent, Absent, Num 1, Num 2, Num 3, Num 4, Num 5]"
    by code_simp
  have b: "fst (ratings_cleanup id [0] [0] (fetch_cleanup finds_one) ten_rows ''in_progress.csv''
        (Map.empty(''in_progress.csv'' \<mapsto> Csv five_done)))
     = Inr [Num 1, Num 2, Num 3, Num 4, Num 5, Num 6, Num 7, Num 8, Num 9, Num 10]"
    by code_simp
  from a have a': "ratings_imdb [0, 1] [1, 0] (fetch_imdb finds_one) ten_rows ''in_progress.csv'' Map.empty
      = (Inr [Absent, Absent, Absent, Absent, Absent, Num 1, Num 2, Num 3, Num 4, Num 5],
         fst (snd (ratings_imdb [0, 1] [1, 0] (fetch_imdb finds_one) ten_rows ''in_progress.csv'' Map.empty)),
         snd (snd (ratings_imdb [0, 1] [1, 0] (fetch_imdb finds_one) ten_rows ''in_progress.csv'' Map.empty)))"
    by (simp add: prod_eq_iff)
  from b have b': "ratings_cleanup id [0] [0] (fetch_cleanup finds_one) ten_rows ''in_progress.csv''
        (Map.empty(''in_progress.csv'' \<mapsto> Csv five_done))
      = (Inr [Num 1, Num 2, Num 3, Num 4, Num 5, Num 6, Num 7, Num 8, Num 9, Num 10],
         fst (snd (ratings_cleanup id [0] [0] (fetch_cleanup finds_one) ten_rows ''in_progress.csv''
        (Map.empty(''in_progress.csv'' \<mapsto> Csv five_done)))),
         snd (snd (ratings_cleanup id [0] [0] (fetch_cleanup finds_one) ten_rows ''in_progress.csv''
        (Map.empty(''in_progress.csv'' \<mapsto> Csv five_done)))))"
    by (simp add: prod_eq_iff)
  from ratings_vector_complete [THEN conjunct1, rule_format, OF a']
  have la: "length [Absent, Absent, Absent, Absent, Absent, Num 1, Num 2, Num 3, Num 4, Num 5]
       = len ten_rows" by (rule conjunct1)
  from ratings_vector_complete [THEN conjunct2, rule_format, OF b']
  have lb: "length [Num 1, Num 2, Num 3, Num 4, Num 5, Num 6, Num 7, Num 8, Num 9, Num (10::rat)]
       = len ten_rows" by (rule conjunct1)
  from a b la lb show ?thesis by (intro conjI)
qed

subsection \<open>The first script on ten rows\<close>

text \<open>
  Claim C4 (each fetched rating is stored at the row index it was fetched for, whatever
  the order in which the batches complete). In \<^verbatim>\<open>imdb_rating_script.py\<close> the
  collection loop computes the index from \<^verbatim>\<open>start_index\<close>, which still holds the
  start of the last submitted batch. On ten rows without progress file there are two
  batches: when the second completes first, rows 5 to 9 end with the ratings of rows 0
  to 4; when the first completes first, rows 5 to 9 get their own ratings; in both runs
  rows 0 to 4 stay \<^verbatim>\<open>None\<close>.
\<close>

theorem add_imdb_ratings_imdb_misplaces:
  "(case add_imdb_ratings_imdb [0, 1] [1, 0] (fetch_imdb finds_one) ''in.csv''
          (Map.empty(''in.csv'' \<mapsto> Csv ten_rows)) of
      (r, files', evs) \<Rightarrow>
        r = Inr ()
        \<and> files' ''in_Modified.csv'' =
            Some (Csv (ten_rows @ [(''IMDB_Rating'',
              [Absent, Absent, Absent, Absent, Absent, Num 1, Num 2, Num 3, Num 4, Num 5])])))
   \<and> (case add_imdb_ratings_imdb [0, 1] [0, 1] (fetch_imdb finds_one) ''in.csv''
          (Map.empty(''in.csv'' \<mapsto> Csv ten_rows)) of
      (r, files', evs) \<Rightarrow>
        r = Inr ()
        \<and> files' ''in_Modified.csv'' =
            Some (Csv (ten_rows @ [(''IMDB_Rating'',
              [Absent, Absent, Absent, Absent, Absent, Num 6, Num 7, Num 8, Num 9, Num 10])])))"
  by code_simp

text \<open>
  Claim C3 (a recorded index is not scheduled and not fetched again, its cached value
  goes to the final vector, which is that of an uninterrupted run). In
  \<^verbatim>\<open>imdb_rating_script.py\<close>, on ten rows of which the progress file records rows 0
  to 4, the five titles still to process are counted from index 0: the run fetches rows
  0 to 4 again, records them a second time, never fetches rows 5 to 9 and leaves them
  \<^verbatim>\<open>None\<close> in the output.
\<close>

theorem add_imdb_ratings_imdb_refetches:
  "(case add_imdb_ratings_imdb [0] [0] (fetch_imdb finds_one) ''in.csv''
          (Map.empty(''in.csv'' \<mapsto> Csv ten_rows, ''in_progress.csv'' \<mapsto> Csv five_done)) of
      (r, files', evs) \<Rightarrow>
        r = Inr ()
        \<and> evs = [Fetch 0, Fetch 1, Fetch 2, Fetch 3, Fetch 4, Append ''in_progress.csv'',
                  Output ''in_Modified.csv'', Message (saved ''in_Modified.csv'')]
        \<and> files' ''in_Modified.csv'' =
            Some (Csv (ten_rows @ [(''IMDB_Rating'',
              [Num 1, Num 2, Num 3, Num 4, Num 5, Absent, Absent, Absent, Absent, Absent])]))
        \<and> files' ''in_progress.csv'' = Some (Csv (concat_df five_done five_done)))"
  by code_simp

section \<open>Resumption in \<^verbatim>\<open>cleanup_script.py\<close>\<close>

subsection \<open>Workers that cannot fail\<close>

text \<open>
  When the fetch operation returns for every title (\<open>g i\<close> is the rating of row
  \<open>i\<close>) and the progress file is one the workers wrote, every worker completes and
  the file holds the old records followed by those of the batches, in the order in which
  the workers took the lock.
\<close>

lemma fetch_rows_total:
  "\<forall>i \<in> set indices. i < length titles \<and> f (titles ! i) = Inr (g i) \<Longrightarrow>
     fetch_rows f titles indices =
       (Inr (map g indices, map (\<lambda>i. (i, titles ! i, g i)) indices), map Fetch indices)"
  by (induction indices) simp_all

lemma column_DataFrame:
  assumes "progress \<noteq> []"
  shows "column (DataFrame progress) ''Index'' = Inr (map (\<lambda>p. Num (of_nat (fst p))) progress)"
    and "column (DataFrame progress) ''Rating'' = Inr (map (\<lambda>p. snd (snd p)) progress)"
  using assms by (simp_all add: column_def DataFrame_def case_prod_beta)

lemma concat_df_nonempty: "a \<noteq> [] \<Longrightarrow> concat_df a b \<noteq> []"
  by (cases a) (simp_all add: concat_df_def columns_def)

lemma save_progress_holds:
  assumes "store_holds fs pf ks rc" and "progress \<noteq> []"
  shows "\<exists>fs'. save_progress progress pf fs = Inr fs'
      \<and> store_holds fs' pf (ks @ map fst progress) (rc @ map (\<lambda>p. snd (snd p)) progress)"
proof (cases "fs pf")
  case None
  with assms(1) have e: "ks = []" "rc = []" by (simp_all add: store_holds_def)
  from None have s: "save_progress progress pf fs = Inr (fs(pf \<mapsto> Csv (DataFrame progress)))"
    by (simp add: save_progress_def exists_def to_csv_def)
  from assms(2) have n: "DataFrame progress \<noteq> []" by (simp add: DataFrame_def)
  from assms(2) e n show ?thesis
    unfolding s
    by (simp add: store_holds_def column_DataFrame len_DataFrame comp_def)
next
  case (Some node)
  with assms(1) obtain t where t: "node = Csv t" "t \<noteq> []"
    and i: "column t ''Index'' = Inr (map (\<lambda>k. Num (of_nat k)) ks)"
    and r: "column t ''Rating'' = Inr rc" and l: "len t = length ks"
    by (cases node) (auto simp: store_holds_def)
  let ?new = "concat_df t (DataFrame progress)"
  from Some t have s: "save_progress progress pf fs = Inr (fs(pf \<mapsto> Csv ?new))"
    by (simp add: save_progress_def exists_def to_csv_def read_csv_def)
  from i have "column ?new ''Index'' = Inr (cells_of t ''Index'' @ cells_of (DataFrame progress) ''Index'')"
    by (intro column_concat_df) (auto dest: column_Inr_columns)
  with i have i': "column ?new ''Index'' = Inr (map (\<lambda>k. Num (of_nat k)) (ks @ map fst progress))"
    by (simp add: cells_of_column cells_of_DataFrame_Index comp_def)
  from r have "column ?new ''Rating'' = Inr (cells_of t ''Rating'' @ cells_of (DataFrame progress) ''Rating'')"
    by (intro column_concat_df) (auto dest: column_Inr_columns)
  with r have r': "column ?new ''Rating'' = Inr (rc @ map (\<lambda>p. snd (snd p)) progress)"
    by (simp add: cells_of_column cells_of_DataFrame_Rating)
  from t l have l': "len ?new = length (ks @ map fst progress)"
    by (simp add: len_concat_df)
  from t have "?new \<noteq> []" by (simp add: concat_df_nonempty)
  with i' r' l' show ?thesis unfolding s by (simp add: store_holds_def)
qed

lemma worker_holds:
  assumes "store_holds fs pf ks rc" and "indices \<noteq> []"
    and "\<forall>i \<in> set indices. i < length titles \<and> f (titles ! i) = Inr (g i)"
  shows "\<exists>fs'. process_titles_cleanup f titles indices pf fs =
        (Inr (map g indices), fs', map Fetch indices @ [Append pf])
      \<and> store_holds fs' pf (ks @ indices) (rc @ map g indices)"
proof -
  let ?progress = "map (\<lambda>i. (i, titles ! i, g i)) indices"
  from assms(2) have "?progress \<noteq> []" by simp
  from save_progress_holds [OF assms(1) this] obtain fs' where
    "save_progress ?progress pf fs = Inr fs'"
    "store_holds fs' pf (ks @ map fst ?progress) (rc @ map (\<lambda>p. snd (snd p)) ?progress)"
    by blast
  with fetch_rows_total [OF assms(3)] show ?thesis
    by (simp add: process_titles_cleanup_def comp_def)
qed

lemma run_workers_holds:
  assumes "store_holds fs pf ks rc"
    and "\<forall>b \<in> set order. batches ! b \<noteq> []
          \<and> (\<forall>i \<in> set (batches ! b). i < length titles \<and> f (titles ! i) = Inr (g i))"
  shows "\<exists>fs'. run_workers (\<lambda>b. process_titles_cleanup f titles (batches ! b) pf) order fs =
        (map (\<lambda>b. (b, Inr (map g (batches ! b)))) order, fs',
         concat (map (\<lambda>b. map Fetch (batches ! b) @ [Append pf]) order))
      \<and> store_holds fs' pf (ks @ concat (map ((!) batches) order))
           (rc @ map g (concat (map ((!) batches) order)))"
  using assms
proof (induction order arbitrary: fs ks rc)
  case Nil
  then show ?case by simp
next
  case (Cons b bs)
  from Cons.prems(2) have b: "batches ! b \<noteq> []"
    "\<forall>i \<in> set (batches ! b). i < length titles \<and> f (titles ! i) = Inr (g i)"
    by simp_all
  from worker_holds [OF Cons.prems(1) b] obtain fs1 where
    w: "process_titles_cleanup f titles (batches ! b) pf fs =
        (Inr (map g (batches ! b)), fs1, map Fetch (batches ! b) @ [Append pf])"
    and h: "store_holds fs1 pf (ks @ batches ! b) (rc @ map g (batches ! b))"
    by blast
  from Cons.prems(2) have rest: "\<forall>b \<in> set bs. batches ! b \<noteq> []
          \<and> (\<forall>i \<in> set (batches ! b). i < length titles \<and> f (titles ! i) = Inr (g i))"
    by simp
  from Cons.IH [OF h rest] obtain fs2 where
    "run_workers (\<lambda>b. process_titles_cleanup f titles (batches ! b) pf) bs fs1 =
        (map (\<lambda>b. (b, Inr (map g (batches ! b)))) bs, fs2,
         concat (map (\<lambda>b. map Fetch (batches ! b) @ [Append pf]) bs))"
    "store_holds fs2 pf ((ks @ batches ! b) @ concat (map ((!) batches) bs))
           ((rc @ map g (batches ! b)) @ map g (concat (map ((!) batches) bs)))"
    by blast
  with w show ?case by simp
qed

subsection \<open>The filling of the vector from the progress file\<close>

lemma collect_total:
  assumes "\<And>b r. map_of results b = Some r \<Longrightarrow> \<exists>rs. r = Inr rs"
  shows "\<exists>ratings'. collect store results completed ratings = Inr ratings'"
proof (induction completed arbitrary: ratings)
  case Nil
  show ?case by simp
next
  case (Cons b completed)
  show ?case
  proof (cases "map_of results b")
    case None
    with Cons show ?thesis by simp
  next
    case (Some r)
    with assms obtain rs where "r = Inr rs" by blast
    with Some Cons show ?thesis by simp
  qed
qed

lemma py_int_of_nat: "py_int (Num (of_nat k)) = Inr (int k)"
  by (simp add: py_int_def)

lemma setitem_nat: "k < length xs \<Longrightarrow> setitem xs (int k) v = Inr (xs[k := v])"
  by (simp add: setitem_def)

lemma recorded_rating_Cons:
  "recorded_rating (k # ks) (r # rc) i =
     (case recorded_rating ks rc i of Some x \<Rightarrow> Some x | None \<Rightarrow> if i = k then Some r else None)"
  by (auto simp: recorded_rating_def map_add_def split: option.splits)

lemma fill_holds:
  assumes "length rc = length ks" and "\<forall>k \<in> set ks. k < length xs"
  shows "\<exists>ys. fill (zip (map (\<lambda>k. Num (of_nat k)) ks) rc) xs = Inr ys
      \<and> length ys = length xs
      \<and> (\<forall>i < length xs. ys ! i = (case recorded_rating ks rc i of Some r \<Rightarrow> r | None \<Rightarrow> xs ! i))"
  using assms
proof (induction ks rc arbitrary: xs rule: list_induct2')
  case 1
  show ?case by (simp add: recorded_rating_def)
next
  case (2 k ks)
  then show ?case by simp
next
  case (3 r rc)
  then show ?case by simp
next
  case (4 k ks r rc)
  from 4(3) have k: "k < length xs" by simp
  from 4(2,3) have "length rc = length ks" "\<forall>j \<in> set ks. j < length (xs[k := r])"
    by simp_all
  from 4(1) [OF this] obtain ys where
    f: "fill (zip (map (\<lambda>k. Num (of_nat k)) ks) rc) (xs[k := r]) = Inr ys"
    and l: "length ys = length xs"
    and v: "\<forall>i < length xs. ys ! i =
        (case recorded_rating ks rc i of Some r' \<Rightarrow> r' | None \<Rightarrow> (xs[k := r]) ! i)"
    by auto
  from f k have "fill (zip (map (\<lambda>k. Num (of_nat k)) (k # ks)) (r # rc)) xs = Inr ys"
    by (simp add: py_int_of_nat setitem_nat)
  moreover have "\<forall>i < length xs. ys ! i =
      (case recorded_rating (k # ks) (r # rc) i of Some r' \<Rightarrow> r' | None \<Rightarrow> xs ! i)"
    using v k by (auto simp: recorded_rating_Cons split: option.splits)
  ultimately show ?case using l by blast
qed

lemma final_fill_holds:
  assumes "store_holds fs pf ks rc" and "length rc = length ks"
    and "\<forall>k \<in> set ks. k < length xs"
  shows "\<exists>ys. final_fill fs pf xs = Inr ys \<and> length ys = length xs
      \<and> (\<forall>i < length xs. ys ! i = (case recorded_rating ks rc i of Some r \<Rightarrow> r | None \<Rightarrow> xs ! i))"
proof (cases "fs pf")
  case None
  with assms(1) have "ks = []" "rc = []" by (simp_all add: store_holds_def)
  with None show ?thesis by (simp add: final_fill_def exists_def recorded_rating_def)
next
  case (Some node)
  with assms(1) obtain t where t: "node = Csv t" "t \<noteq> []"
    and i: "column t ''Index'' = Inr (map (\<lambda>k. Num (of_nat k)) ks)"
    and r: "column t ''Rating'' = Inr rc" and l: "len t = length ks"
    by (cases node) (auto simp: store_holds_def)
  from Some t have rd: "final_fill fs pf xs = fill_from_progress t xs"
    by (simp add: final_fill_def exists_def read_csv_def)
  show ?thesis
  proof (cases "ks = []")
    case True
    with l assms(2) show ?thesis
      unfolding rd by (simp add: fill_from_progress_def recorded_rating_def)
  next
    case False
    with l i r have "fill_from_progress t xs = fill (zip (map (\<lambda>k. Num (of_nat k)) ks) rc) xs"
      by (simp add: fill_from_progress_def)
    with fill_holds [OF assms(2,3)] show ?thesis unfolding rd by simp
  qed
qed

subsection \<open>Batches, unprocessed indices and the last record of a row\<close>

lemma chunk_start: "b < (length xs + 5 - 1) div 5 \<Longrightarrow> b * 5 < length xs"
  by arith

lemma chunk_nonempty: "b < (length xs + 5 - 1) div 5 \<Longrightarrow> take 5 (drop (b * 5) xs) \<noteq> []"
  using chunk_start [of b xs] by simp

lemma chunks_cover:
  "(\<Union>b \<in> {0..<(length xs + 5 - 1) div 5}. set (take 5 (drop (b * 5) xs))) = set xs"
proof
  show "(\<Union>b \<in> {0..<(length xs + 5 - 1) div 5}. set (take 5 (drop (b * 5) xs))) \<subseteq> set xs"
    by (auto dest: in_set_takeD in_set_dropD)
  show "set xs \<subseteq> (\<Union>b \<in> {0..<(length xs + 5 - 1) div 5}. set (take 5 (drop (b * 5) xs)))"
  proof
    fix x assume "x \<in> set xs"
    then obtain i where i: "i < length xs" "xs ! i = x" by (auto simp: in_set_conv_nth)
    let ?b = "i div 5"
    from i have b: "?b < (length xs + 5 - 1) div 5" by arith
    have m: "i mod 5 < 5" by simp
    from i have d: "i mod 5 < length (drop (?b * 5) xs)" by simp arith
    have "take 5 (drop (?b * 5) xs) ! (i mod 5) = xs ! (?b * 5 + i mod 5)"
      using m d i by (simp add: nth_take)
    also have "?b * 5 + i mod 5 = i" by simp
    finally have "take 5 (drop (?b * 5) xs) ! (i mod 5) = x" using i by simp
    moreover from m d have "i mod 5 < length (take 5 (drop (?b * 5) xs))" by simp
    ultimately have "x \<in> set (take 5 (drop (?b * 5) xs))"
      by (metis nth_mem)
    with b show "x \<in> (\<Union>b \<in> {0..<(length xs + 5 - 1) div 5}. set (take 5 (drop (b * 5) xs)))"
      by auto
  qed
qed

lemma Num_of_nat_mem:
  "Num (of_nat i) \<in> set (map (\<lambda>k. Num (of_nat k)) ks) \<longleftrightarrow> i \<in> set ks"
  by auto

lemma set_unprocessed:
  assumes "\<forall>xs. distinct xs \<longrightarrow> distinct (so xs) \<and> set (so xs) = set xs"
  shows "set (unprocessed so (map (\<lambda>k. Num (of_nat k)) ks) n) = {i. i < n \<and> i \<notin> set ks}"
    and "length (unprocessed so (map (\<lambda>k. Num (of_nat k)) ks) n) \<le> n"
proof -
  let ?xs = "filter (\<lambda>i. Num (of_nat i) \<notin> set (map (\<lambda>k. Num (of_nat k)) ks)) [0..<n]"
  have d: "distinct ?xs" by simp
  from assms d have s: "set (so ?xs) = set ?xs" and ds: "distinct (so ?xs)" by blast+
  from s show "set (unprocessed so (map (\<lambda>k. Num (of_nat k)) ks) n) = {i. i < n \<and> i \<notin> set ks}"
    unfolding unprocessed_def by (auto simp only: Num_of_nat_mem set_filter set_upt atLeastLessThan_iff)
  from ds have "length (so ?xs) = card (set (so ?xs))" by (simp add: distinct_card)
  also from s have "\<dots> = card (set ?xs)" by simp
  also from d have "\<dots> = length ?xs" by (simp only: distinct_card)
  also have "\<dots> \<le> length [0..<n]" by (rule length_filter_le)
  finally show "length (unprocessed so (map (\<lambda>k. Num (of_nat k)) ks) n) \<le> n"
    by (simp add: unprocessed_def)
qed

lemma recorded_rating_append:
  assumes "length rc = length ks"
  shows "recorded_rating (ks @ js) (rc @ map g js) i =
     (if i \<in> set js then Some (g i) else recorded_rating ks rc i)"
proof -
  have z: "zip js (map g js) = map (\<lambda>j. (j, g j)) js"
    by (induction js) simp_all
  have m: "map_of (rev (map (\<lambda>j. (j, g j)) js)) i = (if i \<in> set js then Some (g i) else None)"
    by (induction js) (auto simp: map_add_def split: option.splits)
  from assms show ?thesis
    by (auto simp: recorded_rating_def z m map_add_def split: option.splits)
qed

lemma load_processed_holds:
  "store_holds fs pf ks rc \<Longrightarrow> load_processed fs pf = Inr (map (\<lambda>k. Num (of_nat k)) ks)"
  by (auto simp: store_holds_def load_processed_def exists_def read_csv_def
      split: option.splits node.splits)

lemma recorded_rating_None:
  "length rc = length ks \<Longrightarrow> recorded_rating ks rc i = None \<longleftrightarrow> i \<notin> set ks"
proof -
  assume "length rc = length ks"
  then have "map fst (zip ks rc) = ks" by simp
  then have "fst ` set (zip ks rc) = set ks" by (metis set_map)
  then show ?thesis by (simp add: recorded_rating_def map_of_eq_None_iff)
qed

lemma events_of_batches:
  "Fetch i \<in> set (concat (map (\<lambda>b. map Fetch (batches ! b) @ [Append pf]) order))
     \<longleftrightarrow> i \<in> set (concat (map ((!) batches) order))"
  by (induction order) auto

subsection \<open>The vector of a resumed run\<close>

text \<open>
  \<^verbatim>\<open>cleanup_script.py\<close>, started with a progress file that records the rows
  \<open>ks\<close> with the ratings \<open>rc\<close>, over a lookup that answers every title: whatever
  the order in which Python lists the set of unprocessed indices, in which the workers
  take the lock and in which the futures arrive, the run succeeds, fetches exactly the
  rows that are not recorded, and its vector holds for a recorded row its last recorded
  rating and for any other row the rating fetched for it. (The collection loop does not
  decide the vector: the filling from the progress file overwrites every row.)
\<close>

lemma ratings_cleanup_resumes:
  assumes hold: "store_holds files pf ks rc" and len: "length rc = length ks"
    and ks: "\<forall>k \<in> set ks. k < len df"
    and wf: "length (cells_of df ''title'') = len df"
    and fetch: "\<forall>i < len df. f (cells_of df ''title'' ! i) = Inr (g i)"
    and so: "\<forall>xs. distinct xs \<longrightarrow> distinct (so xs) \<and> set (so xs) = set xs"
    and wo: "\<forall>b < len df. b \<in> set wo"
  shows "\<exists>files1 evs ratings.
      ratings_cleanup so wo co f df pf files = (Inr ratings, files1, evs)
      \<and> length ratings = len df
      \<and> (\<forall>i < len df. ratings ! i = (case recorded_rating ks rc i of Some r \<Rightarrow> r | None \<Rightarrow> g i))
      \<and> (\<forall>i. Fetch i \<in> set evs \<longleftrightarrow> i < len df \<and> i \<notin> set ks)"
proof -
  let ?titles = "cells_of df ''title''"
  let ?processed = "map (\<lambda>k. Num (of_nat k)) ks"
  let ?un = "unprocessed so ?processed (len df)"
  let ?n = "(length ?un + 5 - 1) div 5"
  let ?batches = "map (\<lambda>batch. take 5 (drop (batch * 5) ?un)) [0..<?n]"
  let ?worker = "\<lambda>batch. process_titles_cleanup f ?titles (?batches ! batch) pf"
  let ?order = "filter (\<lambda>b. b < ?n) wo"
  let ?bi = "if ?batches = [] then [] else last ?batches"
  let ?js = "concat (map ((!) ?batches) ?order)"
  have lp: "load_processed files pf = Inr ?processed"
    by (rule load_processed_holds [OF hold])
  have un: "set ?un = {i. i < len df \<and> i \<notin> set ks}"
    by (rule set_unprocessed(1) [OF so])
  have unl: "length ?un \<le> len df"
    by (rule set_unprocessed(2) [OF so])
  from unl have nN: "?n \<le> len df" by arith
  with wo have order: "set ?order = {0..<?n}" by auto
  have nth: "?batches ! b = take 5 (drop (b * 5) ?un)" if "b < ?n" for b
    using that by simp
  have sub: "set (?batches ! b) \<subseteq> set ?un" if "b < ?n" for b
    unfolding nth [OF that] by (auto dest: in_set_takeD in_set_dropD)
  have ok: "\<forall>b \<in> set ?order. ?batches ! b \<noteq> []
      \<and> (\<forall>i \<in> set (?batches ! b). i < length ?titles \<and> f (?titles ! i) = Inr (g i))"
  proof
    fix b assume "b \<in> set ?order"
    with order have b: "b < ?n" by simp
    from chunk_nonempty [OF b] nth [OF b] have "?batches ! b \<noteq> []" by simp
    moreover from sub [OF b] un wf fetch
    have "\<forall>i \<in> set (?batches ! b). i < length ?titles \<and> f (?titles ! i) = Inr (g i)"
      by auto
    ultimately show "?batches ! b \<noteq> []
      \<and> (\<forall>i \<in> set (?batches ! b). i < length ?titles \<and> f (?titles ! i) = Inr (g i))" ..
  qed
  from run_workers_holds [OF hold ok] obtain fs1 where
    run: "run_workers ?worker ?order files =
        (map (\<lambda>b. (b, Inr (map g (?batches ! b)))) ?order, fs1,
         concat (map (\<lambda>b. map Fetch (?batches ! b) @ [Append pf]) ?order))"
    and hold1: "store_holds fs1 pf (ks @ ?js) (rc @ map g ?js)"
    by blast
  let ?results = "map (\<lambda>b. (b, Inr (map g (?batches ! b)))) ?order :: (nat \<times> (exn + cell list)) list"
  let ?evs = "concat (map (\<lambda>b. map Fetch (?batches ! b) @ [Append pf]) ?order)"
  have js: "set ?js = set ?un"
  proof -
    have "set ?js = (\<Union>b \<in> set ?order. set (?batches ! b))" by simp
    also have "\<dots> = (\<Union>b \<in> {0..<?n}. set (take 5 (drop (b * 5) ?un)))"
      unfolding order using nth by auto
    also have "\<dots> = set ?un" by (rule chunks_cover)
    finally show ?thesis .
  qed
  have "\<exists>ratings'. collect (store_cleanup ?bi) ?results co (replicate (len df) Absent)
      = Inr ratings'"
  proof (rule collect_total)
    fix b r assume "map_of ?results b = Some r"
    from map_of_SomeD [OF this] show "\<exists>rs. r = Inr rs" by auto
  qed
  then obtain ratings1 where
    col: "collect (store_cleanup ?bi) ?results co (replicate (len df) Absent) = Inr ratings1"
    by blast
  have "length ratings1 = length (replicate (len df) Absent)
      \<and> set ratings1 \<subseteq> set (replicate (len df) Absent) \<union> UNIV"
    by (rule collect_Inr [OF col]) (simp add: store_cleanup_Inr)
  then have l1: "length ratings1 = len df" by simp
  from len have len1: "length (rc @ map g ?js) = length (ks @ ?js)" by simp
  from ks js un l1 have ks1: "\<forall>k \<in> set (ks @ ?js). k < length ratings1" by auto
  from final_fill_holds [OF hold1 len1 ks1] obtain ys where
    fin: "final_fill fs1 pf ratings1 = Inr ys" and ly: "length ys = length ratings1"
    and vy: "\<forall>i < length ratings1. ys ! i =
        (case recorded_rating (ks @ ?js) (rc @ map g ?js) i of Some r \<Rightarrow> r | None \<Rightarrow> ratings1 ! i)"
    by blast
  have res: "ratings_cleanup so wo co f df pf files = (Inr ys, fs1, ?evs)"
    by (simp only: ratings_cleanup_def Let_def lp sum.case run prod.case col fin)
  have val: "ys ! i = (case recorded_rating ks rc i of Some r \<Rightarrow> r | None \<Rightarrow> g i)"
    if i: "i < len df" for i
  proof (cases "i \<in> set ks")
    case True
    with js un have "i \<notin> set ?js" by simp
    then have "recorded_rating (ks @ ?js) (rc @ map g ?js) i = recorded_rating ks rc i"
      by (simp only: recorded_rating_append [OF len] if_False)
    moreover from True recorded_rating_None [OF len, of i] obtain r
      where "recorded_rating ks rc i = Some r" by auto
    ultimately show ?thesis using vy i l1 by simp
  next
    case False
    with js un i have "i \<in> set ?js" by simp
    then have "recorded_rating (ks @ ?js) (rc @ map g ?js) i = Some (g i)"
      by (simp only: recorded_rating_append [OF len] if_True)
    moreover from False recorded_rating_None [OF len, of i]
    have "recorded_rating ks rc i = None" by simp
    ultimately show ?thesis using vy i l1 by simp
  qed
  have ev: "Fetch i \<in> set ?evs \<longleftrightarrow> i < len df \<and> i \<notin> set ks" for i
    unfolding events_of_batches js un by simp
  have 1: "length ys = len df" using ly l1 by simp
  have 2: "\<forall>i < len df. ys ! i = (case recorded_rating ks rc i of Some r \<Rightarrow> r | None \<Rightarrow> g i)"
    using val by simp
  have 3: "\<forall>i. Fetch i \<in> set ?evs \<longleftrightarrow> i < len df \<and> i \<notin> set ks"
    using ev by simp
  show ?thesis
    apply (rule exI [of _ fs1])
    apply (rule exI [of _ ?evs])
    apply (rule exI [of _ ys])
    apply (intro conjI)
       apply (rule res)
      apply (rule 1)
     apply (rule 2)
    apply (rule 3)
    done
qed

text \<open>
  When moreover the recorded ratings are those the lookup gives (the progress file comes
  from an earlier run over the same input), the vector is the rating of every row: the
  vector of a run that starts without progress file, for which \<open>ks\<close> and \<open>rc\<close> are
  empty.
\<close>

lemma recorded_rating_Some:
  assumes "recorded_rating ks rc i = Some r" and "length rc = length ks"
  shows "\<exists>j < length ks. ks ! j = i \<and> rc ! j = r"
proof -
  from assms(1) have "(i, r) \<in> set (zip ks rc)"
    by (auto simp: recorded_rating_def dest: map_of_SomeD)
  then show ?thesis using assms(2) by (auto simp: in_set_zip)
qed

lemma ratings_cleanup_uninterrupted:
  assumes hold: "store_holds files pf ks rc" and len: "length rc = length ks"
    and ks: "\<forall>k \<in> set ks. k < len df"
    and cached: "\<forall>j < length ks. rc ! j = g (ks ! j)"
    and wf: "length (cells_of df ''title'') = len df"
    and fetch: "\<forall>i < len df. f (cells_of df ''title'' ! i) = Inr (g i)"
    and so: "\<forall>xs. distinct xs \<longrightarrow> distinct (so xs) \<and> set (so xs) = set xs"
    and wo: "\<forall>b < len df. b \<in> set wo"
  shows "\<exists>files1 evs.
      ratings_cleanup so wo co f df pf files = (Inr (map g [0..<len df]), files1, evs)
      \<and> (\<forall>i. Fetch i \<in> set evs \<longleftrightarrow> i < len df \<and> i \<notin> set ks)"
proof -
  from ratings_cleanup_resumes [OF hold len ks wf fetch so wo, of co]
  obtain files1 evs ratings where
    run: "ratings_cleanup so wo co f df pf files = (Inr ratings, files1, evs)"
    and l: "length ratings = len df"
    and v: "\<forall>i < len df. ratings ! i = (case recorded_rating ks rc i of Some r \<Rightarrow> r | None \<Rightarrow> g i)"
    and e: "\<forall>i. Fetch i \<in> set evs \<longleftrightarrow> i < len df \<and> i \<notin> set ks"
    by (elim exE conjE) (rule that, assumption+)
  have "ratings ! i = g i" if "i < len df" for i
  proof (cases "recorded_rating ks rc i")
    case None
    with v that show ?thesis by simp
  next
    case (Some r)
    from recorded_rating_Some [OF Some len] cached have "r = g i" by auto
    with v that Some show ?thesis by simp
  qed
  with l have "ratings = map g [0..<len df]"
    by (intro nth_equalityI) simp_all
  with run e show ?thesis by blast
qed

lemma store_holds_absent: "files pf = None \<Longrightarrow> store_holds files pf [] []"
  by (simp add: store_holds_def)

text \<open>
  The collection loop of \<^verbatim>\<open>cleanup_script.py\<close> by itself pairs the ratings of every
  batch with the indices of the last submitted batch: on ten rows in two batches, with
  the second batch arriving first, it leaves the ratings of rows 0 to 4 at rows 5 to 9.
\<close>

lemma cleanup_collection_misplaces:
  "collect (store_cleanup [5, 6, 7, 8, 9])
     [(0, Inr [Num 1, Num 2, Num 3, Num 4, Num 5]), (1, Inr [Num 6, Num 7, Num 8, Num 9, Num 10])]
     [1, 0] (replicate 10 Absent)
   = Inr [Absent, Absent, Absent, Absent, Absent, Num 1, Num 2, Num 3, Num 4, Num 5]"
  by code_simp

section \<open>Properties of the merge utility\<close>

lemma set_matches: "set (matches right_keys k) = {j. j < length right_keys \<and> right_keys ! j = k}"
  by (auto simp: matches_def)

lemma matches_empty: "matches right_keys k = [] \<longleftrightarrow> (\<forall>j < length right_keys. right_keys ! j \<noteq> k)"
  using set_matches [of right_keys k] by (auto simp flip: set_empty)

lemma set_pair_row:
  "set (pair_row right_keys k i) =
     {(i, Some j) | j. j < length right_keys \<and> right_keys ! j = k}
     \<union> (if \<forall>j < length right_keys. right_keys ! j \<noteq> k then {(i, None)} else {})"
proof (cases "matches right_keys k")
  case Nil
  then have "\<forall>j < length right_keys. right_keys ! j \<noteq> k" by (simp add: matches_empty)
  with Nil show ?thesis by (auto simp: pair_row_def)
next
  case (Cons j js)
  then have "\<not> (\<forall>j < length right_keys. right_keys ! j \<noteq> k)"
    using matches_empty [of right_keys k] by simp
  moreover from Cons have "set (j # js) = {j. j < length right_keys \<and> right_keys ! j = k}"
    using set_matches [of right_keys k] by simp
  moreover from Cons have "pair_row right_keys k i = map (\<lambda>j. (i, Some j)) (j # js)"
    by (simp add: pair_row_def)
  ultimately show ?thesis by (simp only: set_map) auto
qed

lemma set_left_join_rows:
  "set (left_join_rows left_keys right_keys) =
     {(i, Some j) | i j. i < length left_keys \<and> j < length right_keys
        \<and> right_keys ! j = left_keys ! i}
     \<union> {(i, None) | i. i < length left_keys
        \<and> (\<forall>j < length right_keys. right_keys ! j \<noteq> left_keys ! i)}"
  unfolding left_join_rows_def by (auto simp: set_pair_row split: if_splits)

lemma sorted_const: "\<forall>x \<in> set xs. x = c \<Longrightarrow> sorted xs"
  by (induction xs) auto

lemma sorted_concat_rows:
  assumes "\<And>i. \<forall>p \<in> set (F i). fst p = i"
  shows "sorted (map fst (concat (map F [0..<n])))"
proof (induction n)
  case 0
  show ?case by simp
next
  case (Suc n)
  have 1: "sorted (map fst (F n))"
    by (rule sorted_const [of _ n]) (use assms [of n] in auto)
  have 2: "\<forall>x \<in> set (map fst (concat (map F [0..<n]))). \<forall>y \<in> set (map fst (F n)). x \<le> y"
    using assms by fastforce
  from Suc 1 2 show ?case by (simp add: sorted_append)
qed

lemma sorted_left_join_rows: "sorted (map fst (left_join_rows left_keys right_keys))"
  unfolding left_join_rows_def
  by (rule sorted_concat_rows) (auto simp: set_pair_row split: if_splits)


lemma map_of_rename_column:
  "n \<noteq> old \<Longrightarrow> n \<noteq> new \<Longrightarrow> map_of (rename_column old new df) n = map_of df n"
  unfolding rename_column_def by (induction df) auto

lemma columns_rename_column:
  "columns (rename_column old new df) = map (\<lambda>n. if n = old then new else n) (columns df)"
  by (simp add: rename_column_def columns_def case_prod_beta comp_def)

lemma merge_left_Inr:
  assumes "column left left_on = Inr left_keys" and "column right right_on = Inr right_keys"
    and "\<not> incompatible_keys left_keys right_keys"
    and "suffix_clashes (columns left) (columns right) = []"
  shows "merge_left left right left_on right_on =
     Inr (map (\<lambda>(n, xs). (suffixed (shared_names (columns left) (columns right)) ''_x'' n,
                 take_rows xs (map (\<lambda>(i, j). Some i) (left_join_rows left_keys right_keys)))) left
          @ map (\<lambda>(n, xs). (suffixed (shared_names (columns left) (columns right)) ''_y'' n,
                   take_rows xs (map (\<lambda>(i, j). j) (left_join_rows left_keys right_keys)))) right)"
  using assms by (simp add: merge_left_def Let_def)

lemma drop_columns_present:
  "name \<in> set (columns df) \<Longrightarrow>
     drop_columns df [name] = Inr (filter (\<lambda>(n, xs). n \<noteq> name) df)"
  by (simp add: drop_columns_def)

lemma suffix_x_not_Title: "n @ ''_x'' \<noteq> ''Title''"
proof
  assume "n @ ''_x'' = ''Title''"
  then have "last (n @ ''_x'') = last ''Title''" by (rule arg_cong)
  then show False by simp
qed

lemma suffix_y_not_Title: "n @ ''_y'' \<noteq> ''Title''"
proof
  assume "n @ ''_y'' = ''Title''"
  then have "last (n @ ''_y'') = last ''Title''" by (rule arg_cong)
  then show False by simp
qed

lemma suffixed_Title:
  assumes "''Title'' \<notin> set overlap"
  shows "suffixed overlap ''_x'' n = ''Title'' \<longleftrightarrow> n = ''Title''"
    and "suffixed overlap ''_y'' n = ''Title'' \<longleftrightarrow> n = ''Title''"
  using assms suffix_x_not_Title [of n] suffix_y_not_Title [of n] by (auto simp: suffixed_def)

lemma filter_named:
  "\<forall>n \<in> set (columns df). f n = name \<longleftrightarrow> n = name \<Longrightarrow>
     filter (\<lambda>(n, xs). n \<noteq> name) (map (\<lambda>(n, xs). (f n, g xs)) df)
     = map (\<lambda>(n, xs). (f n, g xs)) (filter (\<lambda>(n, xs). n \<noteq> name) df)"
proof (induction df)
  case Nil
  show ?case by simp
next
  case (Cons c df)
  obtain n xs where c: "c = (n, xs)" by (cases c)
  from Cons.prems have 1: "f n = name \<longleftrightarrow> n = name"
    and 2: "\<forall>n \<in> set (columns df). f n = name \<longleftrightarrow> n = name"
    by (simp_all add: c columns_def)
  from Cons.IH [OF 2] 1 show ?case by (simp add: c)
qed

lemma map_rename_column:
  "map (\<lambda>(n, xs). (f n, g xs)) (rename_column old new df)
     = map (\<lambda>(n, xs). (f (if n = old then new else n), g xs)) df"
  by (simp add: rename_column_def case_prod_beta comp_def)

text \<open>
  Claim C8, amended. Let both files have the required columns, the first table have no
  column \<open>Title\<close> and no column \<open>IMDB_Rating\<close>, the two key columns not be one of
  numbers and one of text, the suffixes bring about no two columns of one name, and the
  output path not be a directory. Then \<^verbatim>\<open>merge_datasets\<close> writes to the path derived
  from the first file's name the columns of the first table followed by those of the
  progress table without \<open>Title\<close> and with \<open>Rating\<close> renamed to \<open>IMDB_Rating\<close>;
  any other name that the two tables share has the suffix \<^verbatim>\<open>_x\<close> or \<^verbatim>\<open>_y\<close>. The
  rows are those of a left join of \<open>title\<close> against \<open>Title\<close>: every row of the
  first table, in order, once with each progress row of the same title, or once with
  missing progress cells when there is none.
\<close>

theorem merge_datasets_left_join:
  assumes x: "read_csv files x_file = Inr x_df"
    and p: "read_csv files progress_file = Inr progress_df"
    and titles: "column x_df ''title'' = Inr titles"
    and recorded: "column progress_df ''Title'' = Inr recorded"
    and rating: "''Rating'' \<in> set (columns progress_df)"
    and no_Title: "''Title'' \<notin> set (columns x_df)"
    and no_IMDB_Rating: "''IMDB_Rating'' \<notin> set (columns x_df)"
    and keys: "\<not> incompatible_keys titles recorded"
    and names: "suffix_clashes (columns x_df)
        (columns (rename_column ''Rating'' ''IMDB_Rating'' progress_df)) = []"
    and shared: "shared = shared_names (columns x_df)
        (columns (rename_column ''Rating'' ''IMDB_Rating'' progress_df))"
    and out: "files (replace x_file ''.csv'' ''_modified.csv'') \<noteq> Some Dir"
  shows "merge_datasets x_file progress_file files =
      (Inr (),
       files(replace x_file ''.csv'' ''_modified.csv'' \<mapsto> Csv
         (map (\<lambda>(n, xs). (suffixed shared ''_x'' n,
                 take_rows xs (map (\<lambda>(i, j). Some i) (left_join_rows titles recorded))))
            x_df
          @ map (\<lambda>(n, xs). (if n = ''Rating'' then ''IMDB_Rating'' else suffixed shared ''_y'' n,
                   take_rows xs (map (\<lambda>(i, j). j) (left_join_rows titles recorded))))
              (filter (\<lambda>(n, xs). n \<noteq> ''Title'') progress_df))),
       [Output (replace x_file ''.csv'' ''_modified.csv''),
        Message (merged_saved (replace x_file ''.csv'' ''_modified.csv''))])
    \<and> set (left_join_rows titles recorded) =
        {(i, Some j) | i j. i < length titles \<and> j < length recorded \<and> recorded ! j = titles ! i}
        \<union> {(i, None) | i. i < length titles \<and> (\<forall>j < length recorded. recorded ! j \<noteq> titles ! i)}
    \<and> sorted (map fst (left_join_rows titles recorded))"
proof (intro conjI)
  let ?renamed = "rename_column ''Rating'' ''IMDB_Rating'' progress_df"
  let ?rows = "left_join_rows titles recorded"
  let ?l = "\<lambda>xs. take_rows xs (map (\<lambda>(i, j). Some i) ?rows)"
  let ?r = "\<lambda>xs. take_rows xs (map (\<lambda>(i, j). j) ?rows)"
  from titles have t: "''title'' \<in> set (columns x_df)"
    by (rule column_Inr_columns)
  from recorded have T: "''Title'' \<in> set (columns progress_df)"
    by (rule column_Inr_columns)
  from recorded have rk: "column ?renamed ''Title'' = Inr recorded"
    by (simp add: column_def map_of_rename_column)
  from T have Tr: "''Title'' \<in> set (columns ?renamed)"
    by (auto simp: columns_rename_column)
  from no_Title have Ts: "''Title'' \<notin> set shared"
    by (simp add: shared shared_names_def)
  from no_IMDB_Rating have Is: "''IMDB_Rating'' \<notin> set shared"
    by (simp add: shared shared_names_def)
  let ?left = "map (\<lambda>(n, xs). (suffixed shared ''_x'' n, ?l xs)) x_df"
  let ?right = "map (\<lambda>(n, xs). (suffixed shared ''_y'' n, ?r xs)) ?renamed"
  have m: "merge_left x_df ?renamed ''title'' ''Title'' = Inr (?left @ ?right)"
    using merge_left_Inr [OF titles rk keys names]
    by (simp only: shared)
  have "columns ?right = map (suffixed shared ''_y'') (columns ?renamed)"
    by (simp add: columns_def case_prod_beta comp_def)
  moreover from Ts have "suffixed shared ''_y'' ''Title'' = ''Title''"
    by (simp add: suffixed_def)
  ultimately have "''Title'' \<in> set (columns ?right)"
    using Tr by (simp add: image_iff) (rule bexI [of _ "''Title''"], simp_all)
  then have "''Title'' \<in> set (columns (?left @ ?right))"
    by (simp add: columns_def)
  then have d: "drop_columns (?left @ ?right) [''Title'']
      = Inr (filter (\<lambda>(n, xs). n \<noteq> ''Title'') (?left @ ?right))"
    by (rule drop_columns_present)
  have fl: "filter (\<lambda>(n, xs). n \<noteq> ''Title'') ?left = ?left"
  proof -
    have "filter (\<lambda>(n, xs). n \<noteq> ''Title'') ?left
        = map (\<lambda>(n, xs). (suffixed shared ''_x'' n, ?l xs)) (filter (\<lambda>(n, xs). n \<noteq> ''Title'') x_df)"
      by (rule filter_named) (simp add: suffixed_Title [OF Ts])
    moreover from no_Title have "filter (\<lambda>(n, xs). n \<noteq> ''Title'') x_df = x_df"
      by (force simp: columns_def filter_id_conv)
    ultimately show ?thesis by simp
  qed
  have fr: "filter (\<lambda>(n, xs). n \<noteq> ''Title'') ?right
      = map (\<lambda>(n, xs). (if n = ''Rating'' then ''IMDB_Rating'' else suffixed shared ''_y'' n, ?r xs))
          (filter (\<lambda>(n, xs). n \<noteq> ''Title'') progress_df)"
  proof -
    have "?right = map (\<lambda>(n, xs).
        (suffixed shared ''_y'' (if n = ''Rating'' then ''IMDB_Rating'' else n), ?r xs)) progress_df"
      by (rule map_rename_column)
    also have "\<dots> = map (\<lambda>(n, xs).
        (if n = ''Rating'' then ''IMDB_Rating'' else suffixed shared ''_y'' n, ?r xs)) progress_df"
      using Is by (auto simp: suffixed_def)
    finally have "?right = map (\<lambda>(n, xs).
        (if n = ''Rating'' then ''IMDB_Rating'' else suffixed shared ''_y'' n, ?r xs)) progress_df" .
    moreover have "filter (\<lambda>(n, xs). n \<noteq> ''Title'') (map (\<lambda>(n, xs).
        (if n = ''Rating'' then ''IMDB_Rating'' else suffixed shared ''_y'' n, ?r xs)) progress_df)
      = map (\<lambda>(n, xs). (if n = ''Rating'' then ''IMDB_Rating'' else suffixed shared ''_y'' n, ?r xs))
          (filter (\<lambda>(n, xs). n \<noteq> ''Title'') progress_df)"
      by (rule filter_named) (simp add: suffixed_Title [OF Ts])
    ultimately show ?thesis by simp
  qed
  from fl fr have f: "filter (\<lambda>(n, xs). n \<noteq> ''Title'') (?left @ ?right) =
      ?left @ map (\<lambda>(n, xs). (if n = ''Rating'' then ''IMDB_Rating'' else suffixed shared ''_y'' n, ?r xs))
          (filter (\<lambda>(n, xs). n \<noteq> ''Title'') progress_df)"
    by simp
  from x p t T rating m d f out
  show "merge_datasets x_file progress_file files =
      (Inr (),
       files(replace x_file ''.csv'' ''_modified.csv'' \<mapsto> Csv
         (map (\<lambda>(n, xs). (suffixed shared ''_x'' n,
                 take_rows xs (map (\<lambda>(i, j). Some i) (left_join_rows titles recorded))))
            x_df
          @ map (\<lambda>(n, xs). (if n = ''Rating'' then ''IMDB_Rating'' else suffixed shared ''_y'' n,
                   take_rows xs (map (\<lambda>(i, j). j) (left_join_rows titles recorded))))
              (filter (\<lambda>(n, xs). n \<noteq> ''Title'') progress_df))),
       [Output (replace x_file ''.csv'' ''_modified.csv''),
        Message (merged_saved (replace x_file ''.csv'' ''_modified.csv''))])"
    by (simp only: merge_datasets_def Let_def to_csv_def sum.case simp_thms if_False if_True)
qed (rule set_left_join_rows, rule sorted_left_join_rows)


theorem merge_datasets_left_join_witness:
  "read_csv (Map.empty(''x.csv'' \<mapsto> Csv three_titles, ''p.csv'' \<mapsto> Csv three_records)) ''x.csv''
     = Inr three_titles
   \<and> read_csv (Map.empty(''x.csv'' \<mapsto> Csv three_titles, ''p.csv'' \<mapsto> Csv three_records)) ''p.csv''
     = Inr three_records
   \<and> column three_titles ''title'' = Inr [Str ''a'', Str ''zz'', Str ''bb'']
   \<and> column three_records ''Title'' = Inr [Str ''a'', Str ''bb'', Str ''a'']
   \<and> ''Rating'' \<in> set (columns three_records)
   \<and> ''Title'' \<notin> set (columns three_titles)
   \<and> ''IMDB_Rating'' \<notin> set (columns three_titles)
   \<and> \<not> incompatible_keys [Str ''a'', Str ''zz'', Str ''bb''] [Str ''a'', Str ''bb'', Str ''a'']
   \<and> suffix_clashes (columns three_titles)
        (columns (rename_column ''Rating'' ''IMDB_Rating'' three_records)) = []
   \<and> shared_names (columns three_titles)
        (columns (rename_column ''Rating'' ''IMDB_Rating'' three_records)) = [''Index'']
   \<and> merge_datasets ''x.csv'' ''p.csv''
        (Map.empty(''x.csv'' \<mapsto> Csv three_titles, ''p.csv'' \<mapsto> Csv three_records)) =
      (Inr (),
       (Map.empty(''x.csv'' \<mapsto> Csv three_titles, ''p.csv'' \<mapsto> Csv three_records))
         (''x_modified.csv'' \<mapsto> Csv
           [(''Index_x'', [Num 10, Num 10, Num 11, Num 12]),
            (''title'', [Str ''a'', Str ''a'', Str ''zz'', Str ''bb'']),
            (''year'', [Num 1999, Num 1999, Num 2001, Absent]),
            (''Index_y'', [Num 0, Num 0, Absent, Num 2]),
            (''IMDB_Rating'', [Num 1, Absent, Absent, Num 2])]),
       [Output ''x_modified.csv'', Message (merged_saved ''x_modified.csv'')])"
proof -
  let ?files = "Map.empty(''x.csv'' \<mapsto> Csv three_titles, ''p.csv'' \<mapsto> Csv three_records)"
  let ?renamed = "rename_column ''Rating'' ''IMDB_Rating'' three_records"
  have x: "read_csv ?files ''x.csv'' = Inr three_titles"
    and p: "read_csv ?files ''p.csv'' = Inr three_records"
    by (simp_all add: read_csv_def three_titles_def three_records_def DataFrame_def)
  have t: "column three_titles ''title'' = Inr [Str ''a'', Str ''zz'', Str ''bb'']"
    and r: "column three_records ''Title'' = Inr [Str ''a'', Str ''bb'', Str ''a'']"
    by code_simp+
  have c: "''Rating'' \<in> set (columns three_records)"
    and nt: "''Title'' \<notin> set (columns three_titles)"
    and ni: "''IMDB_Rating'' \<notin> set (columns three_titles)"
    by (simp_all add: three_titles_def three_records_def DataFrame_def columns_def)
  have k: "\<not> incompatible_keys [Str ''a'', Str ''zz'', Str ''bb''] [Str ''a'', Str ''bb'', Str ''a'']"
    by code_simp
  have l: "suffix_clashes (columns three_titles) (columns ?renamed) = []"
    by code_simp
  have s: "shared_names (columns three_titles) (columns ?renamed) = [''Index'']"
    by code_simp
  have o: "replace ''x.csv'' ''.csv'' ''_modified.csv'' = ''x_modified.csv''"
    by simp
  have out: "?files (replace ''x.csv'' ''.csv'' ''_modified.csv'') \<noteq> Some Dir"
    by (simp add: o)
  have table: "map (\<lambda>(n, xs). (suffixed [''Index''] ''_x'' n, take_rows xs (map (\<lambda>(i, j). Some i)
              (left_join_rows [Str ''a'', Str ''zz'', Str ''bb''] [Str ''a'', Str ''bb'', Str ''a'']))))
            three_titles
          @ map (\<lambda>(n, xs). (if n = ''Rating'' then ''IMDB_Rating'' else suffixed [''Index''] ''_y'' n,
                   take_rows xs (map (\<lambda>(i, j). j)
              (left_join_rows [Str ''a'', Str ''zz'', Str ''bb''] [Str ''a'', Str ''bb'', Str ''a'']))))
              (filter (\<lambda>(n, xs). n \<noteq> ''Title'') three_records)
       = [(''Index_x'', [Num 10, Num 10, Num 11, Num 12]),
            (''title'', [Str ''a'', Str ''a'', Str ''zz'', Str ''bb'']),
            (''year'', [Num 1999, Num 1999, Num 2001, Absent]),
            (''Index_y'', [Num 0, Num 0, Absent, Num 2]),
            (''IMDB_Rating'', [Num 1, Absent, Absent, Num 2])]"
    by code_simp
  from merge_datasets_left_join [OF x p t r c nt ni k l s [symmetric] out, THEN conjunct1]
  have "merge_datasets ''x.csv'' ''p.csv'' ?files =
      (Inr (),
       ?files(''x_modified.csv'' \<mapsto> Csv
           [(''Index_x'', [Num 10, Num 10, Num 11, Num 12]),
            (''title'', [Str ''a'', Str ''a'', Str ''zz'', Str ''bb'']),
            (''year'', [Num 1999, Num 1999, Num 2001, Absent]),
            (''Index_y'', [Num 0, Num 0, Absent, Num 2]),
            (''IMDB_Rating'', [Num 1, Absent, Absent, Num 2])]),
       [Output ''x_modified.csv'', Message (merged_saved ''x_modified.csv'')])"
    by (simp only: o table)
  with x p t r c nt ni k l s show ?thesis by (intro conjI)
qed

text \<open>
  Claim C8 as it stands (for every pair of files with the required columns) fails on
  each of these inputs, all with the progress table \<open>three_records\<close>. When the first
  table has a column \<open>Title\<close>, the merge names the two columns \<open>Title_x\<close> and
  \<open>Title_y\<close>, the removal of \<open>Title\<close> raises \<^verbatim>\<open>KeyError\<close> and no file is
  written. When it has a column \<open>IMDB_Rating\<close>, the file is written, with the columns
  \<open>IMDB_Rating_x\<close> and \<open>IMDB_Rating_y\<close> and none named \<open>IMDB_Rating\<close>. When the
  output path is a directory, writing raises \<^verbatim>\<open>OSError\<close>. When its titles are all
  numbers, the merge raises \<^verbatim>\<open>ValueError\<close>. When it has the columns \<open>Index\<close> and
  \<open>Index_x\<close>, the merge raises \<^verbatim>\<open>MergeError\<close>.
\<close>

theorem merge_datasets_not_for_every_pair:
  "''Title'' \<in> set (columns three_records)
   \<and> ''Rating'' \<in> set (columns three_records)
   \<and> ''title'' \<in> set (columns both_titles)
   \<and> (case merge_datasets ''x.csv'' ''p.csv''
            (Map.empty(''x.csv'' \<mapsto> Csv both_titles, ''p.csv'' \<mapsto> Csv three_records)) of
         (r, files', evs) \<Rightarrow>
           r = Inl (KeyError ''Title'') \<and> files' ''x_modified.csv'' = None \<and> evs = [])
   \<and> ''title'' \<in> set (columns rated_titles)
   \<and> (case merge_datasets ''x.csv'' ''p.csv''
            (Map.empty(''x.csv'' \<mapsto> Csv rated_titles, ''p.csv'' \<mapsto> Csv three_records)) of
         (r, files', evs) \<Rightarrow>
           r = Inr ()
           \<and> files' ''x_modified.csv'' = Some (Csv
                [(''title'', [Str ''a'', Str ''a'']),
                 (''IMDB_Rating_x'', [Num 5, Num 5]),
                 (''Index'', [Num 0, Num 0]),
                 (''IMDB_Rating_y'', [Num 1, Absent])]))
   \<and> ''title'' \<in> set (columns three_titles)
   \<and> (case merge_datasets ''x.csv'' ''p.csv''
            (Map.empty(''x.csv'' \<mapsto> Csv three_titles, ''p.csv'' \<mapsto> Csv three_records,
               ''x_modified.csv'' \<mapsto> Dir)) of
         (r, files', evs) \<Rightarrow>
           r = Inl OSError \<and> files' ''x_modified.csv'' = Some Dir \<and> evs = [])
   \<and> ''title'' \<in> set (columns numeric_titles)
   \<and> (case merge_datasets ''x.csv'' ''p.csv''
            (Map.empty(''x.csv'' \<mapsto> Csv numeric_titles, ''p.csv'' \<mapsto> Csv three_records)) of
         (r, files', evs) \<Rightarrow>
           r = Inl ValueError \<and> files' ''x_modified.csv'' = None \<and> evs = [])
   \<and> ''title'' \<in> set (columns suffix_titles)
   \<and> (case merge_datasets ''x.csv'' ''p.csv''
            (Map.empty(''x.csv'' \<mapsto> Csv suffix_titles, ''p.csv'' \<mapsto> Csv three_records)) of
         (r, files', evs) \<Rightarrow>
           r = Inl MergeError \<and> files' ''x_modified.csv'' = None \<and> evs = [])"
  by code_simp

end
